theory Spec2Isabelle
  imports Main
begin

section \<open>Tokens and the token source\<close>

text \<open>
  Modelled from the spec: the package \<open>lexer/token\<close> is not among the sources. The
  kinds below are the ones the parser and \<open>ast/expr.go\<close> name (\<open>token.FN\<close>,
  \<open>kind.PLUS\<close>, ...), together with the literal kinds and the primitive type kinds
  that \<open>token.LITERAL_KIND\<close> and \<open>Kind.IsBasicType\<close> range over.
\<close>

datatype Kind =
    EOF | ID
  | INTEGER_LITERAL | STRING_LITERAL | TRUE_BOOL_LITERAL | FALSE_BOOL_LITERAL
  | FN | RETURN | EXTERN | IF | ELIF | ELSE | FOR | WHILE | NOT | AND | OR
  | BOOL_TYPE | INT_TYPE | I8_TYPE | I16_TYPE | I32_TYPE | I64_TYPE
  | U8_TYPE | U16_TYPE | U32_TYPE | U64_TYPE | VOID_TYPE
  | OPEN_PAREN | CLOSE_PAREN | OPEN_CURLY | CLOSE_CURLY
  | COMMA | SEMICOLON | DOT | DOT_DOT_DOT | EQUAL | COLON_EQUAL
  | BANG_EQUAL | EQUAL_EQUAL | STAR | MINUS | PLUS | SLASH
  | GREATER | GREATER_EQ | LESS | LESS_EQ

record Position =
  Filename :: string
  Line :: nat
  Column :: nat

record Token =
  Kind :: Kind
  Lexeme :: string
  Pos :: Position

text \<open>Modelled from the spec: \<open>token.LITERAL_KIND\<close>, the set of literal token kinds.\<close>

definition LITERAL_KIND :: "Kind \<Rightarrow> bool" where
  "LITERAL_KIND k =
     (k = INTEGER_LITERAL \<or> k = STRING_LITERAL \<or> k = TRUE_BOOL_LITERAL \<or> k = FALSE_BOOL_LITERAL)"

text \<open>Modelled from the spec: \<open>Kind.IsBasicType\<close>, the primitive type kinds.\<close>

definition IsBasicType :: "Kind \<Rightarrow> bool" where
  "IsBasicType k =
     (k = BOOL_TYPE \<or> k = INT_TYPE \<or> k = I8_TYPE \<or> k = I16_TYPE \<or> k = I32_TYPE
      \<or> k = I64_TYPE \<or> k = U8_TYPE \<or> k = U16_TYPE \<or> k = U32_TYPE \<or> k = U64_TYPE
      \<or> k = VOID_TYPE)"

text \<open>The operator tables of \<open>ast/expr.go\<close>. The parser's \<open>ast.LOGICAL\<close> is the
  table that file declares as \<open>EQUALITY\<close>.\<close>

definition LOGICAL :: "Kind \<Rightarrow> bool" where
  "LOGICAL k = (k = EQUAL_EQUAL \<or> k = BANG_EQUAL \<or> k = AND \<or> k = OR)"

definition COMPARASION :: "Kind \<Rightarrow> bool" where
  "COMPARASION k = (k = GREATER \<or> k = GREATER_EQ \<or> k = LESS \<or> k = LESS_EQ)"

definition TERM_tbl :: "Kind \<Rightarrow> bool" where
  "TERM_tbl k = (k = MINUS \<or> k = PLUS)"

definition FACTOR :: "Kind \<Rightarrow> bool" where
  "FACTOR k = (k = SLASH \<or> k = STAR)"

definition UNARY :: "Kind \<Rightarrow> bool" where
  "UNARY k = (k = NOT \<or> k = MINUS)"

text \<open>
  Modelled from the spec: the lexer is an external collaborator (\<open>peek\<close>, \<open>peek-next\<close>,
  \<open>advance\<close>). Its state is the list of tokens not yet consumed; past the end of the
  list it keeps answering with the end-of-file token.
\<close>

definition eofToken :: Token where
  "eofToken = \<lparr>Kind = EOF, Lexeme = [], Pos = \<lparr>Filename = [], Line = 0, Column = 0\<rparr>\<rparr>"

fun Peek :: "Token list \<Rightarrow> Token" where
  "Peek [] = eofToken"
| "Peek (t # ts) = t"

fun Peek1 :: "Token list \<Rightarrow> Token" where
  "Peek1 (t # u # ts) = u"
| "Peek1 ts = eofToken"

fun Skip :: "Token list \<Rightarrow> Token list" where
  "Skip [] = []"
| "Skip (t # ts) = ts"

definition NextIs :: "Token list \<Rightarrow> Kind \<Rightarrow> bool" where
  "NextIs ts k = (Kind (Peek ts) = k)"

section \<open>Errors, diagnostics and outcomes\<close>

datatype fmtarg = ArgStr string | ArgInt nat | ArgKind Kind | ArgTok Token

text \<open>
  Go error values. The three sentinels are package-level variables made by
  \<open>errors.New\<close>; \<open>Errorf\<close> is a value freshly made by \<open>fmt.Errorf\<close> from a format
  string and its arguments, and is never identical to a sentinel.
\<close>

datatype error =
    SYMBOL_ALREADY_DEFINED_ON_SCOPE
  | SYMBOL_NOT_FOUND_ON_SCOPE
  | COMPILER_ERROR_FOUND
  | Errorf string "fmtarg list"

text \<open>The message of a sentinel, as \<open>%s\<close> prints it.\<close>

fun errorString :: "error \<Rightarrow> string" where
  "errorString SYMBOL_ALREADY_DEFINED_ON_SCOPE = ''symbol already defined on scope''"
| "errorString SYMBOL_NOT_FOUND_ON_SCOPE = ''symbol not found on scope''"
| "errorString COMPILER_ERROR_FOUND = ''compiler error found''"
| "errorString (Errorf f as) = f"

text \<open>A way of not returning: \<open>log.Fatal\<close> ends the process, a nil receiver panics.\<close>

datatype abort = LogFatal string | NilDereference

datatype 'a outcome = Ok 'a | Err error | Abort abort

text \<open>A diagnostic: the position printed as \<open>%s:%d:%d: \<close>, then the rest of the
  format string with its arguments.\<close>

record Diag =
  At :: Position
  Message :: string
  Args :: "fmtarg list"

section \<open>Scope: the chained symbol table\<close>

text \<open>
  A scope is an object on the heap: scopes refer to their parent by pointer and are
  updated in place. The store is the list of allocated scopes, a pointer is an index
  into it, and \<open>None\<close> is the nil parent.
\<close>

record 'v Scope =
  parent :: "nat option"
  nodes :: "string \<rightharpoonup> 'v"

type_synonym 'v store = "'v Scope list"

definition New :: "'v store \<Rightarrow> nat option \<Rightarrow> nat \<times> 'v store" where
  "New h par = (length h, h @ [\<lparr>parent = par, nodes = Map.empty\<rparr>])"

definition Insert :: "'v store \<Rightarrow> nat \<Rightarrow> string \<Rightarrow> 'v \<Rightarrow> unit outcome \<times> 'v store" where
  "Insert h scope name element =
     (if scope < length h then
        (case nodes (h ! scope) name of
           Some _ \<Rightarrow>
             (Err (Errorf ''%s: %s''
                [ArgStr (errorString SYMBOL_ALREADY_DEFINED_ON_SCOPE), ArgStr name]), h)
         | None \<Rightarrow>
             (Ok (), h[scope := (h ! scope)\<lparr>nodes := (nodes (h ! scope))(name \<mapsto> element)\<rparr>]))
      else (Abort NilDereference, h))"

partial_function (option) Lookup :: "'v store \<Rightarrow> nat \<Rightarrow> string \<Rightarrow> 'v outcome option" where
  "Lookup h scope name =
     (if scope < length h then
        (case nodes (h ! scope) name of
           Some node \<Rightarrow> Some (Ok node)
         | None \<Rightarrow>
             (case parent (h ! scope) of
                None \<Rightarrow>
                  Some (Err (Errorf ''%s: %s''
                    [ArgStr (errorString SYMBOL_NOT_FOUND_ON_SCOPE), ArgStr name]))
              | Some p \<Rightarrow> Lookup h p name))
      else Some (Abort NilDereference))"

text \<open>The chain of a scope: the scope itself, then its ancestors in order, ending at
  the scope that has no parent.\<close>

inductive chain :: "'v store \<Rightarrow> nat \<Rightarrow> nat list \<Rightarrow> bool" where
  root: "scope < length h \<Longrightarrow> parent (h ! scope) = None \<Longrightarrow> chain h scope [scope]"
| link: "scope < length h \<Longrightarrow> parent (h ! scope) = Some p \<Longrightarrow> chain h p ps
         \<Longrightarrow> chain h scope (scope # ps)"

text \<open>Stores as \<open>New\<close> builds them: a parent was allocated before its child.\<close>

definition wellFormed :: "'v store \<Rightarrow> bool" where
  "wellFormed h = (\<forall>s < length h. \<forall>p. parent (h ! s) = Some p \<longrightarrow> p < s)"

text \<open>The binding a chain gives a name: that of the first scope of the chain that
  binds it.\<close>

fun firstBound :: "'v store \<Rightarrow> string \<Rightarrow> nat list \<Rightarrow> 'v option" where
  "firstBound h name [] = None"
| "firstBound h name (s # ps) =
     (case nodes (h ! s) name of Some v \<Rightarrow> Some v | None \<Rightarrow> firstBound h name ps)"

definition duplicateSymbol :: "string \<Rightarrow> error" where
  "duplicateSymbol name =
     Errorf ''%s: %s'' [ArgStr ''symbol already defined on scope'', ArgStr name]"

definition symbolNotFound :: "string \<Rightarrow> error" where
  "symbolNotFound name =
     Errorf ''%s: %s'' [ArgStr ''symbol not found on scope'', ArgStr name]"

subsection \<open>Facts about scopes\<close>

lemma Insert_bound:
  "scope < length h \<Longrightarrow> nodes (h ! scope) name = Some w
   \<Longrightarrow> Insert h scope name element = (Err (duplicateSymbol name), h)"
  by (simp add: Insert_def duplicateSymbol_def)

lemma Insert_free:
  "scope < length h \<Longrightarrow> nodes (h ! scope) name = None
   \<Longrightarrow> Insert h scope name element =
       (Ok (), h[scope := (h ! scope)\<lparr>nodes := (nodes (h ! scope))(name \<mapsto> element)\<rparr>])"
  by (simp add: Insert_def)

lemma wellFormed_New:
  "wellFormed h \<Longrightarrow> (\<forall>p. par = Some p \<longrightarrow> p < length h) \<Longrightarrow> wellFormed (snd (New h par))"
  by (auto simp: wellFormed_def New_def nth_append less_Suc_eq)

lemma wellFormed_Insert:
  "wellFormed h \<Longrightarrow> wellFormed (snd (Insert h scope name element))"
  by (auto simp: wellFormed_def Insert_def nth_list_update split: option.splits)

lemma chain_exists:
  "wellFormed h \<Longrightarrow> scope < length h \<Longrightarrow> \<exists>ps. chain h scope ps"
proof (induction scope rule: less_induct)
  case (less s)
  show ?case
  proof (cases "parent (h ! s)")
    case None
    with less.prems show ?thesis by (blast intro: chain.root)
  next
    case (Some p)
    with less.prems have "p < s" by (simp add: wellFormed_def)
    with less Some obtain ps where "chain h p ps" by (meson less_trans)
    with less.prems Some show ?thesis by (blast intro: chain.link)
  qed
qed

lemma Lookup_chain:
  "chain h scope ps \<Longrightarrow>
   Lookup h scope name =
     Some (case firstBound h name ps of
             Some v \<Rightarrow> Ok v
           | None \<Rightarrow> Err (symbolNotFound name))"
proof (induction rule: chain.induct)
  case (root scope h)
  then show ?case
    by (subst Lookup.simps) (auto simp: symbolNotFound_def split: option.splits)
next
  case (link scope h p ps)
  then show ?case
    by (subst Lookup.simps) (auto simp: symbolNotFound_def split: option.splits)
qed

lemma firstBound_None:
  "(firstBound h name ps = None) = (\<forall>s \<in> set ps. nodes (h ! s) name = None)"
  by (induction ps) (auto split: option.splits)

lemma chain_shape:
  "chain h scope ps \<Longrightarrow> ps \<noteq> [] \<and> hd ps = scope \<and> parent (h ! last ps) = None"
  by (induction rule: chain.induct) auto

section \<open>The syntax tree\<close>

datatype ExprType =
    BasicType Kind
  | PointerType ExprType
  | IdType Token

datatype Expr =
    LiteralExpr ExprType string
  | IdExpr Token
  | UnaryExpr Kind Expr
  | BinaryExpr Expr Kind Expr
  | FunctionCall Token "Expr list"
  | FieldAccess Expr Expr
  | VoidExpr

record VarStmt =
  Name :: Token
  Type :: "ExprType option"
  Value :: "Expr option"
  Decl :: bool
  NeedsInference :: bool

datatype Stmt =
    ReturnStmt Token Expr
  | VarStmtNode VarStmt
  | MultiVarStmt bool "VarStmt list"
  | FunctionCallStmt Token "Expr list"
  | FieldAccessStmt Expr Expr
  | CondStmt IfElifCond "IfElifCond list" "ElseCond option"
  | ForLoop Stmt Expr Stmt BlockStmt
  | WhileLoop Expr BlockStmt
and BlockStmt = BlockStmt Position "Stmt list" Position
and IfElifCond = IfElifCond Position Expr BlockStmt
and ElseCond = ElseCond Position BlockStmt

record Field =
  FieldName :: Token
  FieldType :: ExprType

record FieldList =
  Open :: Token
  Fields :: "Field list"
  IsVariadic :: bool
  Close :: Token

record Proto =
  ProtoName :: Token
  ProtoParams :: FieldList
  ProtoRetType :: ExprType

record FunctionDecl =
  FnScope :: nat
  FnName :: Token
  Params :: FieldList
  Block :: BlockStmt
  RetType :: ExprType

record ExternDecl =
  ExternName :: Token
  Prototypes :: "Proto list"

datatype Node = FunctionDeclNode FunctionDecl | ExternDeclNode ExternDecl

section \<open>The parser\<close>

record Parser =
  lex :: "Token list"
  collector :: "Diag list"
  moduleScope :: "nat option"
  scopes :: "Node store"

type_synonym 'a result = "'a outcome \<times> Parser"

definition ReportAndSave :: "Parser \<Rightarrow> Diag \<Rightarrow> Parser" where
  "ReportAndSave p d = p\<lparr>collector := collector p @ [d]\<rparr>"

definition skip :: "Parser \<Rightarrow> Parser" where
  "skip p = p\<lparr>lex := Skip (lex p)\<rparr>"

definition expect :: "Parser \<Rightarrow> Kind \<Rightarrow> (Token \<times> bool) \<times> Parser" where
  "expect p expectedKind =
     (let tok = Peek (lex p) in
      if Kind tok \<noteq> expectedKind then ((tok, False), p)
      else ((tok, True), skip p))"

definition advanced :: "Parser \<Rightarrow> Parser \<Rightarrow> bool" where
  "advanced p1 p = (length (lex p1) < length (lex p))"

text \<open>What a guard answers when a sub-parser reports success without consuming a token.
  No sub-parser does (see the lemmas on progress), so no run takes this branch.\<close>

definition stuck :: "Parser \<Rightarrow> 'a result" where
  "stuck p = (Abort (LogFatal ''no progress''), p)"

definition quoted :: "string \<Rightarrow> string" where
  "quoted s = [CHR 0x27] @ s @ [CHR 0x27]"

lemma expect_ok_lex:
  "expect p k = ((tok, True), p1) \<Longrightarrow> k \<noteq> EOF \<Longrightarrow> lex p \<noteq> [] \<and> lex p1 = tl (lex p) \<and> length (lex p1) < length (lex p)"
  by (cases "lex p") (auto simp: expect_def skip_def Let_def eofToken_def split: if_splits)

lemma skip_shorter:
  "Kind (Peek (lex p)) \<noteq> EOF \<Longrightarrow> length (lex (skip p)) < length (lex p)"
  by (cases "lex p") (simp_all add: skip_def eofToken_def)

lemma table_not_EOF:
  "LOGICAL k \<Longrightarrow> k \<noteq> EOF" "COMPARASION k \<Longrightarrow> k \<noteq> EOF" "TERM_tbl k \<Longrightarrow> k \<noteq> EOF"
  "FACTOR k \<Longrightarrow> k \<noteq> EOF" "UNARY k \<Longrightarrow> k \<noteq> EOF"
  by (auto simp: LOGICAL_def COMPARASION_def TERM_tbl_def FACTOR_def UNARY_def)

lemma expect_shorter:
  "(x, y) = expect p k \<Longrightarrow> (tok, True) = x \<Longrightarrow> k \<noteq> EOF \<Longrightarrow> length (lex y) < length (lex p)"
  using expect_ok_lex [of p k tok y] by simp

lemma skip_after:
  "LOGICAL (Kind (Peek (lex p))) \<Longrightarrow> length (lex (skip p)) < length (lex p)"
  "COMPARASION (Kind (Peek (lex p))) \<Longrightarrow> length (lex (skip p)) < length (lex p)"
  "TERM_tbl (Kind (Peek (lex p))) \<Longrightarrow> length (lex (skip p)) < length (lex p)"
  "FACTOR (Kind (Peek (lex p))) \<Longrightarrow> length (lex (skip p)) < length (lex p)"
  "UNARY (Kind (Peek (lex p))) \<Longrightarrow> length (lex (skip p)) < length (lex p)"
  "Kind (Peek (lex p)) = OPEN_PAREN \<Longrightarrow> length (lex (skip p)) < length (lex p)"
  by (simp_all add: skip_shorter table_not_EOF)

lemma skip_le: "length (lex (skip p)) \<le> length (lex p)"
  by (cases "lex p") (simp_all add: skip_def)

text \<open>The measure of a call: the tokens left, then the place of the function in the
  precedence ladder.\<close>

fun exprCall where
  "exprCall (Inl (Inl (Inl (p::Parser)))) = (length (lex p), 13::nat)"
| "exprCall (Inl (Inl (Inr (Inl (p::Parser))))) = (length (lex p), 12)"
| "exprCall (Inl (Inl (Inr (Inr (lhs::Expr, p::Parser))))) = (length (lex p), 0)"
| "exprCall (Inl (Inr (Inl (Inl (p::Parser))))) = (length (lex p), 11)"
| "exprCall (Inl (Inr (Inl (Inr (lhs::Expr, p::Parser))))) = (length (lex p), 0)"
| "exprCall (Inl (Inr (Inr (Inl (p::Parser))))) = (length (lex p), 10)"
| "exprCall (Inl (Inr (Inr (Inr (lhs::Expr, p::Parser))))) = (length (lex p), 0)"
| "exprCall (Inr (Inl (Inl (p::Parser)))) = (length (lex p), 9)"
| "exprCall (Inr (Inl (Inr (Inl (lhs::Expr, p::Parser))))) = (length (lex p), 0)"
| "exprCall (Inr (Inl (Inr (Inr (p::Parser))))) = (length (lex p), 8)"
| "exprCall (Inr (Inr (Inl (Inl (p::Parser))))) = (length (lex p), 7)"
| "exprCall (Inr (Inr (Inl (Inr (ends::Kind list, exprs::Expr list, p::Parser))))) = (length (lex p), 14)"
| "exprCall (Inr (Inr (Inr (Inl (p::Parser))))) = (length (lex p), 6)"
| "exprCall (Inr (Inr (Inr (Inr (p::Parser))))) = (length (lex p), 5)"

function parseExpr :: "Parser \<Rightarrow> Expr result"
  and parseLogical :: "Parser \<Rightarrow> Expr result"
  and parseLogicalLoop :: "Expr \<Rightarrow> Parser \<Rightarrow> Expr result"
  and parseComparasion :: "Parser \<Rightarrow> Expr result"
  and parseComparasionLoop :: "Expr \<Rightarrow> Parser \<Rightarrow> Expr result"
  and parseTerm :: "Parser \<Rightarrow> Expr result"
  and parseTermLoop :: "Expr \<Rightarrow> Parser \<Rightarrow> Expr result"
  and parseFactor :: "Parser \<Rightarrow> Expr result"
  and parseFactorLoop :: "Expr \<Rightarrow> Parser \<Rightarrow> Expr result"
  and parseUnary :: "Parser \<Rightarrow> Expr result"
  and parsePrimary :: "Parser \<Rightarrow> Expr result"
  and parseExprList :: "Kind list \<Rightarrow> Expr list \<Rightarrow> Parser \<Rightarrow> (Expr list) result"
  and parseFnCall :: "Parser \<Rightarrow> (Token \<times> Expr list) result"
  and parseFieldAccess :: "Parser \<Rightarrow> (Expr \<times> Expr) result"
where
  "parseExpr p = parseLogical p"
| "parseLogical p =
     (case parseComparasion p of
        (Ok lhs, p1) \<Rightarrow> if advanced p1 p then parseLogicalLoop lhs p1 else stuck p1
      | (Err e, p1) \<Rightarrow> (Err e, p1)
      | (Abort a, p1) \<Rightarrow> (Abort a, p1))"
| "parseLogicalLoop lhs p =
     (let next = Peek (lex p) in
      if LOGICAL (Kind next) then
        (case parseComparasion (skip p) of
           (Ok rhs, p1) \<Rightarrow>
             if advanced p1 (skip p) then parseLogicalLoop (BinaryExpr lhs (Kind next) rhs) p1
             else stuck p1
         | (Err e, p1) \<Rightarrow> (Err e, p1)
         | (Abort a, p1) \<Rightarrow> (Abort a, p1))
      else (Ok lhs, p))"
| "parseComparasion p =
     (case parseTerm p of
        (Ok lhs, p1) \<Rightarrow> if advanced p1 p then parseComparasionLoop lhs p1 else stuck p1
      | (Err e, p1) \<Rightarrow> (Err e, p1)
      | (Abort a, p1) \<Rightarrow> (Abort a, p1))"
| "parseComparasionLoop lhs p =
     (let next = Peek (lex p) in
      if COMPARASION (Kind next) then
        (case parseTerm (skip p) of
           (Ok rhs, p1) \<Rightarrow>
             if advanced p1 (skip p) then parseComparasionLoop (BinaryExpr lhs (Kind next) rhs) p1
             else stuck p1
         | (Err e, p1) \<Rightarrow> (Err e, p1)
         | (Abort a, p1) \<Rightarrow> (Abort a, p1))
      else (Ok lhs, p))"
| "parseTerm p =
     (case parseFactor p of
        (Ok lhs, p1) \<Rightarrow> if advanced p1 p then parseTermLoop lhs p1 else stuck p1
      | (Err e, p1) \<Rightarrow> (Err e, p1)
      | (Abort a, p1) \<Rightarrow> (Abort a, p1))"
| "parseTermLoop lhs p =
     (let next = Peek (lex p) in
      if TERM_tbl (Kind next) then
        (case parseFactor (skip p) of
           (Ok rhs, p1) \<Rightarrow>
             if advanced p1 (skip p) then parseTermLoop (BinaryExpr lhs (Kind next) rhs) p1
             else stuck p1
         | (Err e, p1) \<Rightarrow> (Err e, p1)
         | (Abort a, p1) \<Rightarrow> (Abort a, p1))
      else (Ok lhs, p))"
| "parseFactor p =
     (case parseUnary p of
        (Ok lhs, p1) \<Rightarrow> if advanced p1 p then parseFactorLoop lhs p1 else stuck p1
      | (Err e, p1) \<Rightarrow> (Err e, p1)
      | (Abort a, p1) \<Rightarrow> (Abort a, p1))"
| "parseFactorLoop lhs p =
     (let next = Peek (lex p) in
      if FACTOR (Kind next) then
        (case parseUnary (skip p) of
           (Ok rhs, p1) \<Rightarrow>
             if advanced p1 (skip p) then parseFactorLoop (BinaryExpr lhs (Kind next) rhs) p1
             else stuck p1
         | (Err e, p1) \<Rightarrow> (Err e, p1)
         | (Abort a, p1) \<Rightarrow> (Abort a, p1))
      else (Ok lhs, p))"
| "parseUnary p =
     (let next = Peek (lex p) in
      if UNARY (Kind next) then
        (case parseUnary (skip p) of
           (Ok rhs, p1) \<Rightarrow> (Ok (UnaryExpr (Kind next) rhs), p1)
         | (Err e, p1) \<Rightarrow> (Err e, p1)
         | (Abort a, p1) \<Rightarrow> (Abort a, p1))
      else parsePrimary p)"
| "parsePrimary p =
     (let tok = Peek (lex p) in
      if Kind tok = ID then
        (let idExpr = IdExpr tok; next = Peek1 (lex p) in
         if Kind next = OPEN_PAREN then
           (case parseFnCall p of
              (Ok (name, args), p1) \<Rightarrow> (Ok (FunctionCall name args), p1)
            | (Err e, p1) \<Rightarrow> (Err e, p1)
            | (Abort a, p1) \<Rightarrow> (Abort a, p1))
         else if Kind next = DOT then
           (case parseFieldAccess p of
              (Ok (left, right), p1) \<Rightarrow> (Ok (FieldAccess left right), p1)
            | (Err e, p1) \<Rightarrow> (Err e, p1)
            | (Abort a, p1) \<Rightarrow> (Abort a, p1))
         else (Ok idExpr, skip p))
      else if Kind tok = OPEN_PAREN then
        (case parseExpr (skip p) of
           (Ok expr, p1) \<Rightarrow>
             (case expect p1 CLOSE_PAREN of
                ((_, ok), p2) \<Rightarrow>
                  if \<not> ok then (Err (Errorf ''expected closing parenthesis'' []), p2)
                  else (Ok expr, p2))
         | (Err e, p1) \<Rightarrow> (Err e, p1)
         | (Abort a, p1) \<Rightarrow> (Abort a, p1))
      else if LITERAL_KIND (Kind tok) then
        (Ok (LiteralExpr (BasicType (Kind tok)) (Lexeme tok)), skip p)
      else
        (Err (Errorf ''invalid token for expression parsing: %s %s %s''
               [ArgKind (Kind tok), ArgStr (Lexeme tok), ArgTok tok]), p))"
| "parseExprList possibleEnds exprs p =
     (if \<exists>end \<in> set possibleEnds. NextIs (lex p) end then (Ok exprs, p)
      else
        (case parseExpr p of
           (Ok expr, p1) \<Rightarrow>
             if advanced p1 p then
               (if NextIs (lex p1) COMMA then parseExprList possibleEnds (exprs @ [expr]) (skip p1)
                else parseExprList possibleEnds (exprs @ [expr]) p1)
             else stuck p1
         | (Err e, p1) \<Rightarrow> (Err e, p1)
         | (Abort a, p1) \<Rightarrow> (Abort a, p1)))"
| "parseFnCall p =
     (case expect p ID of
        ((name, ok), p1) \<Rightarrow>
          if \<not> ok then (Err (Errorf (''expected '' @ quoted ''id'') []), p1)
          else
            (case expect p1 OPEN_PAREN of
               ((_, ok), p2) \<Rightarrow>
                 if \<not> ok then (Err (Errorf (''expected '' @ quoted ''('') []), p2)
                 else
                   (case parseExprList [CLOSE_PAREN] [] p2 of
                      (Ok args, p3) \<Rightarrow>
                        (case expect p3 CLOSE_PAREN of
                           ((_, ok), p4) \<Rightarrow>
                             if \<not> ok then (Err (Errorf (''expected '' @ quoted '')'') []), p4)
                             else (Ok (name, args), p4))
                    | (Err e, p3) \<Rightarrow> (Err e, p3)
                    | (Abort a, p3) \<Rightarrow> (Abort a, p3))))"
| "parseFieldAccess p =
     (case expect p ID of
        ((ident, ok), p1) \<Rightarrow>
          if \<not> ok then (Abort (LogFatal ''expected ID''), p1)
          else
            (let left = IdExpr ident in
             case expect p1 DOT of
               ((_, ok), p2) \<Rightarrow>
                 if \<not> ok then (Abort (LogFatal ''expect a dot''), p2)
                 else
                   (case parsePrimary p2 of
                      (Ok right, p3) \<Rightarrow> (Ok (left, right), p3)
                    | (Err e, p3) \<Rightarrow> (Abort (LogFatal (errorString e)), p3)
                    | (Abort a, p3) \<Rightarrow> (Abort a, p3))))"
  by pat_completeness auto

termination
  apply (relation "measure (\<lambda>x. 16 * fst (exprCall x) + snd (exprCall x))")
  apply (simp_all add: advanced_def)
  subgoal by (drule skip_after) simp
  subgoal by (drule skip_after) simp
  subgoal by (drule skip_after) simp
  subgoal by (drule skip_after) simp
  subgoal by (drule skip_after) simp
  subgoal by (drule skip_after) simp
  subgoal by (drule skip_after) simp
  subgoal by (drule skip_after) simp
  subgoal by (drule skip_after) simp
  subgoal by (drule skip_after) simp
  subgoal by (rule le_less_trans [OF skip_le])
  subgoal by (drule expect_shorter, assumption, simp, drule expect_shorter, assumption, simp, simp)
  subgoal by (drule expect_shorter, assumption, simp, drule expect_shorter, assumption, simp, simp)
  done

lemmas expr_induct = parseExpr_parseLogical_parseLogicalLoop_parseComparasion_parseComparasionLoop_parseTerm_parseTermLoop_parseFactor_parseFactorLoop_parseUnary_parsePrimary_parseExprList_parseFnCall_parseFieldAccess.induct

declare parseExpr.simps [simp del] parseLogical.simps [simp del] parseLogicalLoop.simps [simp del]
  parseComparasion.simps [simp del] parseComparasionLoop.simps [simp del]
  parseTerm.simps [simp del] parseTermLoop.simps [simp del]
  parseFactor.simps [simp del] parseFactorLoop.simps [simp del]
  parseUnary.simps [simp del] parsePrimary.simps [simp del] parseExprList.simps [simp del]
  parseFnCall.simps [simp del] parseFieldAccess.simps [simp del]


lemma expect_lex:
  "expect p k = ((tok, ok), p1) \<Longrightarrow> length (lex p1) \<le> length (lex p)"
  "expect p k = ((tok, True), p1) \<Longrightarrow> k \<noteq> EOF \<Longrightarrow> length (lex p1) < length (lex p)"
  using skip_le [of p] expect_ok_lex [of p k tok p1]
  by (auto simp: expect_def Let_def split: if_splits)

lemma expr_progress:
  "\<forall>e q. parseExpr p = (Ok e, q) \<longrightarrow> length (lex q) < length (lex p)"
  "\<forall>e q. parseLogical p = (Ok e, q) \<longrightarrow> length (lex q) < length (lex p)"
  "\<forall>e q. parseLogicalLoop lhs p = (Ok e, q) \<longrightarrow> length (lex q) \<le> length (lex p)"
  "\<forall>e q. parseComparasion p = (Ok e, q) \<longrightarrow> length (lex q) < length (lex p)"
  "\<forall>e q. parseComparasionLoop lhs p = (Ok e, q) \<longrightarrow> length (lex q) \<le> length (lex p)"
  "\<forall>e q. parseTerm p = (Ok e, q) \<longrightarrow> length (lex q) < length (lex p)"
  "\<forall>e q. parseTermLoop lhs p = (Ok e, q) \<longrightarrow> length (lex q) \<le> length (lex p)"
  "\<forall>e q. parseFactor p = (Ok e, q) \<longrightarrow> length (lex q) < length (lex p)"
  "\<forall>e q. parseFactorLoop lhs p = (Ok e, q) \<longrightarrow> length (lex q) \<le> length (lex p)"
  "\<forall>e q. parseUnary p = (Ok e, q) \<longrightarrow> length (lex q) < length (lex p)"
  "\<forall>e q. parsePrimary p = (Ok e, q) \<longrightarrow> length (lex q) < length (lex p)"
  "\<forall>e q. parseExprList ends exprs p = (Ok e, q) \<longrightarrow> length (lex q) \<le> length (lex p)"
  "\<forall>e q. parseFnCall p = (Ok e, q) \<longrightarrow> length (lex q) < length (lex p)"
  "\<forall>e q. parseFieldAccess p = (Ok e, q) \<longrightarrow> length (lex q) < length (lex p)"
proof (induct p and p and lhs p and p and lhs p and p and lhs p and p and lhs p and p and p
    and ends exprs p and p and p rule: expr_induct)
  case (1 p)
  then show ?case by (simp add: parseExpr.simps)
next
  case (2 p)
  then show ?case
    by (subst parseLogical.simps)
       (auto simp: advanced_def stuck_def split: prod.splits outcome.splits if_splits)
next
  case (3 lhs p)
  then show ?case
    using skip_le [of p]
    apply (subst parseLogicalLoop.simps)
    apply (auto simp: advanced_def stuck_def Let_def split: prod.splits outcome.splits if_splits)
    apply (atomize (full))
    apply auto
    done
next
  case (4 p)
  then show ?case
    by (subst parseComparasion.simps)
       (auto simp: advanced_def stuck_def split: prod.splits outcome.splits if_splits)
next
  case (5 lhs p)
  then show ?case
    using skip_le [of p]
    apply (subst parseComparasionLoop.simps)
    apply (auto simp: advanced_def stuck_def Let_def split: prod.splits outcome.splits if_splits)
    apply (atomize (full))
    apply auto
    done
next
  case (6 p)
  then show ?case
    by (subst parseTerm.simps)
       (auto simp: advanced_def stuck_def split: prod.splits outcome.splits if_splits)
next
  case (7 lhs p)
  then show ?case
    using skip_le [of p]
    apply (subst parseTermLoop.simps)
    apply (auto simp: advanced_def stuck_def Let_def split: prod.splits outcome.splits if_splits)
    apply (atomize (full))
    apply auto
    done
next
  case (8 p)
  then show ?case
    by (subst parseFactor.simps)
       (auto simp: advanced_def stuck_def split: prod.splits outcome.splits if_splits)
next
  case (9 lhs p)
  then show ?case
    using skip_le [of p]
    apply (subst parseFactorLoop.simps)
    apply (auto simp: advanced_def stuck_def Let_def split: prod.splits outcome.splits if_splits)
    apply (atomize (full))
    apply auto
    done
next
  case (10 p)
  then show ?case
    using skip_after(5) [of p]
    by (subst parseUnary.simps)
       (auto simp: Let_def split: prod.splits outcome.splits if_splits)
next
  case (11 p)
  then show ?case
    using skip_after(6) [of p] skip_shorter [of p]
    by (subst parsePrimary.simps)
       (auto simp: Let_def LITERAL_KIND_def split: prod.splits outcome.splits if_splits dest!: expect_lex(1))
next
  case (12 ends exprs p)
  then show ?case
    apply (subst parseExprList.simps)
    apply (auto simp: advanced_def stuck_def split: prod.splits outcome.splits if_splits)
    apply (meson skip_le order_trans less_imp_le_nat)
    done
next
  case (13 p)
  show ?case
  proof (intro allI impI)
    fix e q
    assume r: "parseFnCall p = (Ok e, q)"
    then obtain name p1 u p2 args p3 v where
      e1: "expect p ID = ((name, True), p1)" and
      e2: "expect p1 OPEN_PAREN = ((u, True), p2)" and
      l: "parseExprList [CLOSE_PAREN] [] p2 = (Ok args, p3)" and
      e3: "expect p3 CLOSE_PAREN = ((v, True), q)"
      by (subst (asm) parseFnCall.simps) (auto split: prod.splits outcome.splits if_splits)
    have "\<forall>e q. parseExprList [CLOSE_PAREN] [] p2 = (Ok e, q)
            \<longrightarrow> length (lex q) \<le> length (lex p2)"
      by (rule 13 [of "(name, True)" p1 name True "(u, True)" p2 u True]) (simp_all add: e1 e2)
    with l have "length (lex p3) \<le> length (lex p2)" by simp
    with expect_lex(2) [OF e1] expect_lex(2) [OF e2] expect_lex(2) [OF e3]
    show "length (lex q) < length (lex p)" by simp
  qed
next
  case (14 p)
  show ?case
  proof (intro allI impI)
    fix e q
    assume r: "parseFieldAccess p = (Ok e, q)"
    then obtain ident p1 u p2 right where
      e1: "expect p ID = ((ident, True), p1)" and
      e2: "expect p1 DOT = ((u, True), p2)" and
      l: "parsePrimary p2 = (Ok right, q)"
      by (subst (asm) parseFieldAccess.simps)
         (auto simp: Let_def split: prod.splits outcome.splits if_splits)
    have "\<forall>e q. parsePrimary p2 = (Ok e, q) \<longrightarrow> length (lex q) < length (lex p2)"
      by (rule 14 [of "(ident, True)" p1 ident True "IdExpr ident" "(u, True)" p2 u True])
         (simp_all add: e1 e2)
    with l have "length (lex q) < length (lex p2)" by simp
    with expect_lex(2) [OF e1] expect_lex(2) [OF e2]
    show "length (lex q) < length (lex p)" by simp
  qed
qed

lemmas expr_advances = expr_progress [rule_format]

lemma parseLogical_eq:
  "parseLogical p =
     (case parseComparasion p of
        (Ok lhs, p1) \<Rightarrow> parseLogicalLoop lhs p1
      | (Err e, p1) \<Rightarrow> (Err e, p1)
      | (Abort a, p1) \<Rightarrow> (Abort a, p1))"
  by (subst parseLogical.simps)
     (auto simp: advanced_def split: prod.splits outcome.splits dest: expr_advances(4))

lemma parseLogicalLoop_eq:
  "parseLogicalLoop lhs p =
     (let next = Peek (lex p) in
      if LOGICAL (Kind next) then
        (case parseComparasion (skip p) of
           (Ok rhs, p1) \<Rightarrow> parseLogicalLoop (BinaryExpr lhs (Kind next) rhs) p1
         | (Err e, p1) \<Rightarrow> (Err e, p1)
         | (Abort a, p1) \<Rightarrow> (Abort a, p1))
      else (Ok lhs, p))"
  by (subst parseLogicalLoop.simps)
     (auto simp: advanced_def Let_def split: prod.splits outcome.splits dest: expr_advances(4))

lemma parseComparasion_eq:
  "parseComparasion p =
     (case parseTerm p of
        (Ok lhs, p1) \<Rightarrow> parseComparasionLoop lhs p1
      | (Err e, p1) \<Rightarrow> (Err e, p1)
      | (Abort a, p1) \<Rightarrow> (Abort a, p1))"
  by (subst parseComparasion.simps)
     (auto simp: advanced_def split: prod.splits outcome.splits dest: expr_advances(6))

lemma parseComparasionLoop_eq:
  "parseComparasionLoop lhs p =
     (let next = Peek (lex p) in
      if COMPARASION (Kind next) then
        (case parseTerm (skip p) of
           (Ok rhs, p1) \<Rightarrow> parseComparasionLoop (BinaryExpr lhs (Kind next) rhs) p1
         | (Err e, p1) \<Rightarrow> (Err e, p1)
         | (Abort a, p1) \<Rightarrow> (Abort a, p1))
      else (Ok lhs, p))"
  by (subst parseComparasionLoop.simps)
     (auto simp: advanced_def Let_def split: prod.splits outcome.splits dest: expr_advances(6))

lemma parseTerm_eq:
  "parseTerm p =
     (case parseFactor p of
        (Ok lhs, p1) \<Rightarrow> parseTermLoop lhs p1
      | (Err e, p1) \<Rightarrow> (Err e, p1)
      | (Abort a, p1) \<Rightarrow> (Abort a, p1))"
  by (subst parseTerm.simps)
     (auto simp: advanced_def split: prod.splits outcome.splits dest: expr_advances(8))

lemma parseTermLoop_eq:
  "parseTermLoop lhs p =
     (let next = Peek (lex p) in
      if TERM_tbl (Kind next) then
        (case parseFactor (skip p) of
           (Ok rhs, p1) \<Rightarrow> parseTermLoop (BinaryExpr lhs (Kind next) rhs) p1
         | (Err e, p1) \<Rightarrow> (Err e, p1)
         | (Abort a, p1) \<Rightarrow> (Abort a, p1))
      else (Ok lhs, p))"
  by (subst parseTermLoop.simps)
     (auto simp: advanced_def Let_def split: prod.splits outcome.splits dest: expr_advances(8))

lemma parseFactor_eq:
  "parseFactor p =
     (case parseUnary p of
        (Ok lhs, p1) \<Rightarrow> parseFactorLoop lhs p1
      | (Err e, p1) \<Rightarrow> (Err e, p1)
      | (Abort a, p1) \<Rightarrow> (Abort a, p1))"
  by (subst parseFactor.simps)
     (auto simp: advanced_def split: prod.splits outcome.splits dest: expr_advances(10))

lemma parseFactorLoop_eq:
  "parseFactorLoop lhs p =
     (let next = Peek (lex p) in
      if FACTOR (Kind next) then
        (case parseUnary (skip p) of
           (Ok rhs, p1) \<Rightarrow> parseFactorLoop (BinaryExpr lhs (Kind next) rhs) p1
         | (Err e, p1) \<Rightarrow> (Err e, p1)
         | (Abort a, p1) \<Rightarrow> (Abort a, p1))
      else (Ok lhs, p))"
  by (subst parseFactorLoop.simps)
     (auto simp: advanced_def Let_def split: prod.splits outcome.splits dest: expr_advances(10))

lemma parseExprList_eq:
  "parseExprList possibleEnds exprs p =
     (if \<exists>end \<in> set possibleEnds. NextIs (lex p) end then (Ok exprs, p)
      else
        (case parseExpr p of
           (Ok expr, p1) \<Rightarrow>
             (if NextIs (lex p1) COMMA then parseExprList possibleEnds (exprs @ [expr]) (skip p1)
              else parseExprList possibleEnds (exprs @ [expr]) p1)
         | (Err e, p1) \<Rightarrow> (Err e, p1)
         | (Abort a, p1) \<Rightarrow> (Abort a, p1)))"
  by (subst parseExprList.simps)
     (auto simp: advanced_def split: prod.splits outcome.splits dest: expr_advances(1))

lemmas expr_eqs =
  parseExpr.simps parseLogical_eq parseLogicalLoop_eq parseComparasion_eq parseComparasionLoop_eq
  parseTerm_eq parseTermLoop_eq parseFactor_eq parseFactorLoop_eq parseUnary.simps
  parsePrimary.simps parseExprList_eq parseFnCall.simps parseFieldAccess.simps

lemmas table_defs = LOGICAL_def COMPARASION_def TERM_tbl_def FACTOR_def UNARY_def
  LITERAL_KIND_def IsBasicType_def

text \<open>Helpers for writing token streams down: a token of a kind with its text (at the
  zero position), and a parser that is about to read a given stream.\<close>

definition tk :: "Kind \<Rightarrow> string \<Rightarrow> Token" where
  "tk k s = \<lparr>Kind = k, Lexeme = s, Pos = \<lparr>Filename = [], Line = 0, Column = 0\<rparr>\<rparr>"

definition onTokens :: "Token list \<Rightarrow> Parser" where
  "onTokens ts = \<lparr>lex = ts, collector = [], moduleScope = None, scopes = []\<rparr>"

definition int_lit :: "string \<Rightarrow> Expr" where
  "int_lit s = LiteralExpr (BasicType INTEGER_LITERAL) s"

definition var :: "string \<Rightarrow> Expr" where
  "var s = IdExpr (tk ID s)"

text \<open>The number of FieldAccess nodes of an expression.\<close>

fun fieldAccesses :: "Expr \<Rightarrow> nat" where
  "fieldAccesses (FieldAccess l r) = 1 + fieldAccesses l + fieldAccesses r"
| "fieldAccesses (UnaryExpr k e) = fieldAccesses e"
| "fieldAccesses (BinaryExpr l k r) = fieldAccesses l + fieldAccesses r"
| "fieldAccesses (FunctionCall n args) = sum_list (map fieldAccesses args)"
| "fieldAccesses e = 0"

lemmas eval_defs = table_defs onTokens_def tk_def int_lit_def var_def skip_def expect_def
  NextIs_def eofToken_def

section \<open>Types, variables and statements\<close>

function parseExprType :: "Parser \<Rightarrow> ExprType result" where
  "parseExprType p =
     (let tok = Peek (lex p) in
      if Kind tok = STAR then
        (case parseExprType (skip p) of
           (Ok ty, p1) \<Rightarrow> (Ok (PointerType ty), p1)
         | (Err e, p1) \<Rightarrow> (Err e, p1)
         | (Abort a, p1) \<Rightarrow> (Abort a, p1))
      else if Kind tok = ID then (Ok (IdType tok), skip p)
      else if IsBasicType (Kind tok) then (Ok (BasicType (Kind tok)), skip p)
      else (Err COMPILER_ERROR_FOUND, p))"
  by pat_completeness auto
termination
  by (relation "measure (\<lambda>p. length (lex p))") (simp_all add: skip_shorter)

declare parseExprType.simps [simp del]

lemma parseExprType_lex:
  "parseExprType p = (r, q) \<Longrightarrow>
     length (lex q) \<le> length (lex p) \<and> (\<forall>t. r = Ok t \<longrightarrow> length (lex q) < length (lex p))"
proof (induction p arbitrary: r q rule: parseExprType.induct)
  case (1 p)
  show ?case
  proof (cases "Kind (Peek (lex p)) = STAR")
    case True
    obtain r1 q1 where s: "parseExprType (skip p) = (r1, q1)" by (cases "parseExprType (skip p)")
    from "1.IH" [OF refl True s] skip_shorter [of p] True
    have "length (lex q1) < length (lex p)" by simp
    with "1.prems" True s show ?thesis
      by (subst (asm) parseExprType.simps) (auto simp: Let_def split: outcome.splits)
  next
    case False
    with "1.prems" skip_le [of p] skip_shorter [of p] show ?thesis
      by (subst (asm) parseExprType.simps)
         (auto simp: Let_def IsBasicType_def split: if_splits)
  qed
qed

function parseVarLoop :: "VarStmt list \<Rightarrow> Parser \<Rightarrow> (VarStmt list \<times> bool) result" where
  "parseVarLoop variables p =
     (case expect p ID of
        ((name, ok), p1) \<Rightarrow>
          if \<not> ok then (Err (Errorf ''expected ID'' []), p1)
          else
            (let variable = \<lparr>Name = name, Type = None, Value = None, Decl = True,
                             NeedsInference = True\<rparr>;
                 next = Peek (lex p1) in
             if Kind next = COLON_EQUAL \<or> Kind next = EQUAL then
               (Ok (variables @ [variable], Kind next = COLON_EQUAL), skip p1)
             else if Kind next = COMMA then parseVarLoop (variables @ [variable]) (skip p1)
             else
               (case parseExprType p1 of
                  (Err e, p2) \<Rightarrow> (Err e, p2)
                | (Abort a, p2) \<Rightarrow> (Abort a, p2)
                | (Ok ty, p2) \<Rightarrow>
                    (let variable = variable\<lparr>Type := Some ty, NeedsInference := False\<rparr>;
                         next = Peek (lex p2) in
                     if Kind next = COLON_EQUAL \<or> Kind next = EQUAL then
                       (Ok (variables @ [variable], Kind next = COLON_EQUAL), skip p2)
                     else if Kind next = COMMA then
                       parseVarLoop (variables @ [variable]) (skip p2)
                     else parseVarLoop (variables @ [variable]) p2))))"
  by pat_completeness auto
termination
  apply (relation "measure (\<lambda>(variables, p). length (lex p))")
  apply simp_all
  subgoal by (drule expect_shorter, assumption, simp) (meson skip_le le_less_trans)
  subgoal
    apply (drule expect_shorter, assumption, simp)
    apply (drule sym [of _ "parseExprType _"], drule parseExprType_lex)
    apply (meson skip_le le_less_trans)
    done
  subgoal
    apply (drule expect_shorter, assumption, simp)
    apply (drule sym [of _ "parseExprType _"], drule parseExprType_lex)
    apply simp
    done
  done

declare parseVarLoop.simps [simp del]

definition parseVar :: "Parser \<Rightarrow> Stmt result" where
  "parseVar p =
     (case parseVarLoop [] p of
        (Err e, p1) \<Rightarrow> (Err e, p1)
      | (Abort a, p1) \<Rightarrow> (Abort a, p1)
      | (Ok (variables, isDecl), p1) \<Rightarrow>
          (case parseExprList [SEMICOLON, CLOSE_PAREN] [] p1 of
             (Err e, p2) \<Rightarrow> (Err e, p2)
           | (Abort a, p2) \<Rightarrow> (Abort a, p2)
           | (Ok exprs, p2) \<Rightarrow>
               if length variables \<noteq> length exprs then
                 (Err (Errorf ''%d != %d'' [ArgInt (length variables), ArgInt (length exprs)]), p2)
               else
                 (let variables =
                        map (\<lambda>(v, e). v\<lparr>Value := Some e, Decl := isDecl\<rparr>) (zip variables exprs)
                  in if length variables = 1 then (Ok (VarStmtNode (variables ! 0)), p2)
                     else (Ok (MultiVarStmt isDecl variables), p2))))"

definition ParseIdStmt :: "Parser \<Rightarrow> Stmt result" where
  "ParseIdStmt p =
     (let aheadId = Peek1 (lex p) in
      if Kind aheadId = OPEN_PAREN then
        (case parseFnCall p of
           (Ok (name, args), p1) \<Rightarrow> (Ok (FunctionCallStmt name args), p1)
         | (Err e, p1) \<Rightarrow> (Err e, p1)
         | (Abort a, p1) \<Rightarrow> (Abort a, p1))
      else if Kind aheadId = DOT then
        (case parseFieldAccess p of
           (Ok (left, right), p1) \<Rightarrow> (Ok (FieldAccessStmt left right), p1)
         | (Err e, p1) \<Rightarrow> (Err e, p1)
         | (Abort a, p1) \<Rightarrow> (Abort a, p1))
      else parseVar p)"

lemma parseVarLoop_lex:
  "parseVarLoop vs p = (Ok r, q) \<Longrightarrow> length (lex q) < length (lex p)"
proof (induction vs p arbitrary: r q rule: parseVarLoop.induct)
  case (1 variables p)
  from "1.prems" obtain name p1 where e: "expect p ID = ((name, True), p1)"
    by (subst (asm) parseVarLoop.simps) (auto split: prod.splits if_splits)
  note lt = expect_lex(2) [OF e]
  let ?v = "\<lparr>Name = name, Type = None, Value = None, Decl = True, NeedsInference = True\<rparr>"
  show ?case
  proof (cases "Kind (Peek (lex p1)) = COLON_EQUAL \<or> Kind (Peek (lex p1)) = EQUAL")
    case True
    with "1.prems" e lt skip_le [of p1] show ?thesis
      by (subst (asm) parseVarLoop.simps) (auto simp: Let_def)
  next
    case ne: False
    show ?thesis
    proof (cases "Kind (Peek (lex p1)) = COMMA")
      case True
      with "1.prems" e ne have "parseVarLoop (variables @ [?v]) (skip p1) = (Ok r, q)"
        by (subst (asm) parseVarLoop.simps) (auto simp: Let_def)
      from "1.IH"(1) [OF e [symmetric] refl _ refl refl _ True this] ne
      have "length (lex q) < length (lex (skip p1))" by simp
      with lt skip_le [of p1] show ?thesis by simp
    next
      case nc: False
      obtain r2 p2 where t: "parseExprType p1 = (r2, p2)" by (cases "parseExprType p1")
      note tl = parseExprType_lex [OF t]
      from "1.prems" e ne nc t obtain ty where ty: "r2 = Ok ty"
        by (subst (asm) parseVarLoop.simps) (auto simp: Let_def split: outcome.splits)
      let ?w = "?v\<lparr>Type := Some ty, NeedsInference := False\<rparr>"
      show ?thesis
      proof (cases "Kind (Peek (lex p2)) = COLON_EQUAL \<or> Kind (Peek (lex p2)) = EQUAL")
        case True
        with "1.prems" e ne nc t ty lt tl skip_le [of p2] show ?thesis
          by (subst (asm) parseVarLoop.simps) (auto simp: Let_def)
      next
        case ne2: False
        show ?thesis
        proof (cases "Kind (Peek (lex p2)) = COMMA")
          case True
          with "1.prems" e ne nc t ty ne2
          have "parseVarLoop (variables @ [?w]) (skip p2) = (Ok r, q)"
            by (subst (asm) parseVarLoop.simps) (auto simp: Let_def)
          from "1.IH"(2) [OF e [symmetric] refl _ refl refl ne nc _ refl refl refl _ True this]
            t ty ne2
          have "length (lex q) < length (lex (skip p2))" by simp
          with lt tl skip_le [of p2] show ?thesis by simp
        next
          case False
          with "1.prems" e ne nc t ty ne2
          have "parseVarLoop (variables @ [?w]) p2 = (Ok r, q)"
            by (subst (asm) parseVarLoop.simps) (auto simp: Let_def)
          from "1.IH"(3) [OF e [symmetric] refl _ refl refl ne nc _ refl refl refl _ False this]
            t ty ne2
          have "length (lex q) < length (lex p2)" by simp
          with lt tl show ?thesis by simp
        qed
      qed
    qed
  qed
qed

lemma parseVar_lex:
  "parseVar p = (Ok s, q) \<Longrightarrow> length (lex q) < length (lex p)"
  by (auto simp: parseVar_def Let_def split: prod.splits outcome.splits if_splits
           dest!: parseVarLoop_lex expr_advances(12))

lemma ParseIdStmt_lex:
  "ParseIdStmt p = (Ok s, q) \<Longrightarrow> length (lex q) < length (lex p)"
  by (auto simp: ParseIdStmt_def Let_def split: prod.splits outcome.splits if_splits
           dest!: parseVar_lex expr_advances(13) expr_advances(14))

lemma parsed_shorter:
  "(Ok e, q) = parseExpr p \<Longrightarrow> length (lex q) < length (lex p)"
  "(Ok s, q) = parseVar p \<Longrightarrow> length (lex q) < length (lex p)"
  "(Ok s, q) = ParseIdStmt p \<Longrightarrow> length (lex q) < length (lex p)"
  using expr_advances(1) [of p e q] parseVar_lex [of p s q] ParseIdStmt_lex [of p s q]
  by simp_all

text \<open>The measure of a call of the statement parser.\<close>

fun stmtCall where
  "stmtCall (Inl (Inl (Inl (p::Parser)))) = (length (lex p), 4::nat)"
| "stmtCall (Inl (Inl (Inr (p::Parser)))) = (length (lex p), 0)"
| "stmtCall (Inl (Inr (Inl (statements::Stmt list, p::Parser)))) = (length (lex p), 5)"
| "stmtCall (Inl (Inr (Inr (p::Parser)))) = (length (lex p), 3)"
| "stmtCall (Inr (Inl (Inl (p::Parser)))) = (length (lex p), 2)"
| "stmtCall (Inr (Inl (Inr (elifConds::IfElifCond list, p::Parser)))) = (length (lex p), 1)"
| "stmtCall (Inr (Inr (Inl (p::Parser)))) = (length (lex p), 1)"
| "stmtCall (Inr (Inr (Inr (Inl (p::Parser))))) = (length (lex p), 3)"
| "stmtCall (Inr (Inr (Inr (Inr (p::Parser))))) = (length (lex p), 3)"

function parseStmt :: "Parser \<Rightarrow> (Stmt option) result"
  and parseBlock :: "Parser \<Rightarrow> BlockStmt result"
  and parseBlockLoop :: "Stmt list \<Rightarrow> Parser \<Rightarrow> (Stmt list) result"
  and parseCondStmt :: "Parser \<Rightarrow> Stmt result"
  and parseIfCond :: "Parser \<Rightarrow> IfElifCond result"
  and parseElifConds :: "IfElifCond list \<Rightarrow> Parser \<Rightarrow> (IfElifCond list) result"
  and parseElseCond :: "Parser \<Rightarrow> (ElseCond option) result"
  and parseForLoop :: "Parser \<Rightarrow> Stmt result"
  and parseWhileLoop :: "Parser \<Rightarrow> Stmt result"
where
  "parseStmt p =
     (let tok = Peek (lex p) in
      if Kind tok = RETURN then
        (let p1 = skip p in
         if NextIs (lex p1) SEMICOLON then (Ok (Some (ReturnStmt tok VoidExpr)), skip p1)
         else
           (case parseExpr p1 of
              (Abort a, p2) \<Rightarrow> (Abort a, p2)
            | (Err e, p2) \<Rightarrow>
                (let tok = Peek (lex p2) in
                 (Err COMPILER_ERROR_FOUND,
                  ReportAndSave p2
                    \<lparr>At = Pos tok, Message = ''expected expression or ;, not %s'',
                     Args = [ArgKind (Kind tok)]\<rparr>))
            | (Ok returnValue, p2) \<Rightarrow>
                (case expect p2 SEMICOLON of
                   ((_, ok), p3) \<Rightarrow>
                     if \<not> ok then
                       (let tok = Peek (lex p3) in
                        (Err COMPILER_ERROR_FOUND,
                         ReportAndSave p3
                           \<lparr>At = Pos tok,
                            Message = ''expected ; at the end of statement, not %s'',
                            Args = [ArgKind (Kind tok)]\<rparr>))
                     else (Ok (Some (ReturnStmt tok returnValue)), p3))))
      else if Kind tok = ID then
        (case ParseIdStmt p of
           (Err e, p1) \<Rightarrow> (Err e, p1)
         | (Abort a, p1) \<Rightarrow> (Abort a, p1)
         | (Ok idStmt, p1) \<Rightarrow>
             (case expect p1 SEMICOLON of
                ((semicolon, ok), p2) \<Rightarrow>
                  if \<not> ok then
                    (Err COMPILER_ERROR_FOUND,
                     ReportAndSave p2
                       \<lparr>At = Pos semicolon,
                        Message = ''expected ; at the end of statement, not %s'',
                        Args = [ArgKind (Kind semicolon)]\<rparr>)
                  else (Ok (Some idStmt), p2)))
      else if Kind tok = IF then
        (case parseCondStmt p of
           (Ok condStmt, p1) \<Rightarrow> (Ok (Some condStmt), p1)
         | (Err e, p1) \<Rightarrow> (Err e, p1)
         | (Abort a, p1) \<Rightarrow> (Abort a, p1))
      else if Kind tok = FOR then
        (case parseForLoop p of
           (Ok forLoop, p1) \<Rightarrow> (Ok (Some forLoop), p1)
         | (Err e, p1) \<Rightarrow> (Err e, p1)
         | (Abort a, p1) \<Rightarrow> (Abort a, p1))
      else if Kind tok = WHILE then
        (case parseWhileLoop p of
           (Ok whileLoop, p1) \<Rightarrow> (Ok (Some whileLoop), p1)
         | (Err e, p1) \<Rightarrow> (Err e, p1)
         | (Abort a, p1) \<Rightarrow> (Abort a, p1))
      else (Ok None, p))"
| "parseBlock p =
     (case expect p OPEN_CURLY of
        ((openCurly, ok), p1) \<Rightarrow>
          if \<not> ok then
            (Err (Errorf (''expected '' @ quoted ''{'' @ '', but got %s'') [ArgTok openCurly]), p1)
          else
            (case parseBlockLoop [] p1 of
               (Err e, p2) \<Rightarrow> (Err e, p2)
             | (Abort a, p2) \<Rightarrow> (Abort a, p2)
             | (Ok statements, p2) \<Rightarrow>
                 (case expect p2 CLOSE_CURLY of
                    ((closeCurly, ok), p3) \<Rightarrow>
                      if \<not> ok then
                        (Err COMPILER_ERROR_FOUND,
                         ReportAndSave p3
                           \<lparr>At = Pos closeCurly,
                            Message = ''expected statement or }, not %s'',
                            Args = [ArgKind (Kind closeCurly)]\<rparr>)
                      else (Ok (BlockStmt (Pos openCurly) statements (Pos closeCurly)), p3))))"
| "parseBlockLoop statements p =
     (let tok = Peek (lex p) in
      if Kind tok = CLOSE_CURLY then (Ok statements, p)
      else
        (case parseStmt p of
           (Err e, p1) \<Rightarrow> (Err e, p1)
         | (Abort a, p1) \<Rightarrow> (Abort a, p1)
         | (Ok None, p1) \<Rightarrow> (Ok statements, p1)
         | (Ok (Some stmt), p1) \<Rightarrow>
             if advanced p1 p then parseBlockLoop (statements @ [stmt]) p1 else stuck p1))"
| "parseCondStmt p =
     (case parseIfCond p of
        (Err e, p1) \<Rightarrow> (Err e, p1)
      | (Abort a, p1) \<Rightarrow> (Abort a, p1)
      | (Ok ifCond, p1) \<Rightarrow>
          if \<not> advanced p1 p then stuck p1
          else
            (case parseElifConds [] p1 of
               (Err e, p2) \<Rightarrow> (Err e, p2)
             | (Abort a, p2) \<Rightarrow> (Abort a, p2)
             | (Ok elifConds, p2) \<Rightarrow>
                 if \<not> advanced p2 p then stuck p2
                 else
                   (case parseElseCond p2 of
                      (Err e, p3) \<Rightarrow> (Err e, p3)
                    | (Abort a, p3) \<Rightarrow> (Abort a, p3)
                    | (Ok elseCond, p3) \<Rightarrow> (Ok (CondStmt ifCond elifConds elseCond), p3))))"
| "parseIfCond p =
     (case expect p IF of
        ((ifToken, ok), p1) \<Rightarrow>
          if \<not> ok then (Err (Errorf (''expected '' @ quoted ''if'') []), p1)
          else
            (case parseExpr p1 of
               (Err e, p2) \<Rightarrow> (Err e, p2)
             | (Abort a, p2) \<Rightarrow> (Abort a, p2)
             | (Ok ifExpr, p2) \<Rightarrow>
                 (case parseBlock p2 of
                    (Err e, p3) \<Rightarrow> (Err e, p3)
                  | (Abort a, p3) \<Rightarrow> (Abort a, p3)
                  | (Ok ifBlock, p3) \<Rightarrow> (Ok (IfElifCond (Pos ifToken) ifExpr ifBlock), p3))))"
| "parseElifConds elifConds p =
     (case expect p ELIF of
        ((elifToken, ok), p1) \<Rightarrow>
          if \<not> ok then (Ok elifConds, p1)
          else
            (case parseExpr p1 of
               (Err e, p2) \<Rightarrow> (Err e, p2)
             | (Abort a, p2) \<Rightarrow> (Abort a, p2)
             | (Ok elifExpr, p2) \<Rightarrow>
                 (case parseBlock p2 of
                    (Err e, p3) \<Rightarrow> (Err e, p3)
                  | (Abort a, p3) \<Rightarrow> (Abort a, p3)
                  | (Ok elifBlock, p3) \<Rightarrow>
                      if advanced p3 p2 then
                        parseElifConds
                          (elifConds @ [IfElifCond (Pos elifToken) elifExpr elifBlock]) p3
                      else stuck p3)))"
| "parseElseCond p =
     (case expect p ELSE of
        ((elseToken, ok), p1) \<Rightarrow>
          if \<not> ok then (Ok None, p1)
          else
            (case parseBlock p1 of
               (Err e, p2) \<Rightarrow> (Err e, p2)
             | (Abort a, p2) \<Rightarrow> (Abort a, p2)
             | (Ok elseBlock, p2) \<Rightarrow> (Ok (Some (ElseCond (Pos elseToken) elseBlock)), p2)))"
| "parseForLoop p =
     (case expect p FOR of
        ((_, ok), p1) \<Rightarrow>
          if \<not> ok then (Err (Errorf (''expected '' @ quoted ''for'') []), p1)
          else
            (case expect p1 OPEN_PAREN of
               ((_, ok), p2) \<Rightarrow>
                 if \<not> ok then (Err (Errorf (''expected '' @ quoted ''('') []), p2)
                 else
                   (case parseVar p2 of
                      (Err e, p3) \<Rightarrow> (Err e, p3)
                    | (Abort a, p3) \<Rightarrow> (Abort a, p3)
                    | (Ok init, p3) \<Rightarrow>
                        (case expect p3 SEMICOLON of
                           ((_, ok), p4) \<Rightarrow>
                             if \<not> ok then (Err (Errorf (''expected '' @ quoted '';'') []), p4)
                             else
                               (case parseExpr p4 of
                                  (Err e, p5) \<Rightarrow> (Err e, p5)
                                | (Abort a, p5) \<Rightarrow> (Abort a, p5)
                                | (Ok cond, p5) \<Rightarrow>
                                    (case expect p5 SEMICOLON of
                                       ((_, ok), p6) \<Rightarrow>
                                         if \<not> ok then
                                           (Err (Errorf (''expected '' @ quoted '';'') []), p6)
                                         else
                                           (case parseVar p6 of
                                              (Err e, p7) \<Rightarrow> (Err e, p7)
                                            | (Abort a, p7) \<Rightarrow> (Abort a, p7)
                                            | (Ok update, p7) \<Rightarrow>
                                                (case expect p7 CLOSE_PAREN of
                                                   ((_, ok), p8) \<Rightarrow>
                                                     if \<not> ok then
                                                       (Err (Errorf (''expected '' @ quoted '')'') []),
                                                        p8)
                                                     else
                                                       (case parseBlock p8 of
                                                          (Err e, p9) \<Rightarrow> (Err e, p9)
                                                        | (Abort a, p9) \<Rightarrow> (Abort a, p9)
                                                        | (Ok block, p9) \<Rightarrow>
                                                            (Ok (ForLoop init cond update block),
                                                             p9))))))))))"
| "parseWhileLoop p =
     (case expect p WHILE of
        ((_, ok), p1) \<Rightarrow>
          if \<not> ok then (Err (Errorf (''expected '' @ quoted ''while'') []), p1)
          else
            (case parseExpr p1 of
               (Err e, p2) \<Rightarrow> (Err e, p2)
             | (Abort a, p2) \<Rightarrow> (Abort a, p2)
             | (Ok expr, p2) \<Rightarrow>
                 (case parseBlock p2 of
                    (Err e, p3) \<Rightarrow> (Err e, p3)
                  | (Abort a, p3) \<Rightarrow> (Abort a, p3)
                  | (Ok block, p3) \<Rightarrow> (Ok (WhileLoop expr block), p3))))"
  by pat_completeness auto

termination
  apply (relation "measure (\<lambda>x. 16 * fst (stmtCall x) + snd (stmtCall x))")
  apply (simp_all add: advanced_def)
  apply (((drule expect_shorter, assumption, simp) | drule parsed_shorter)+, simp)+
  done

lemmas stmt_induct = parseStmt_parseBlock_parseBlockLoop_parseCondStmt_parseIfCond_parseElifConds_parseElseCond_parseForLoop_parseWhileLoop.induct

declare parseStmt.simps [simp del] parseBlock.simps [simp del] parseBlockLoop.simps [simp del]
  parseCondStmt.simps [simp del] parseIfCond.simps [simp del] parseElifConds.simps [simp del]
  parseElseCond.simps [simp del] parseForLoop.simps [simp del] parseWhileLoop.simps [simp del]

lemma stmt_progress:
  "\<forall>s q. parseStmt p = (Ok s, q) \<longrightarrow>
     length (lex q) \<le> length (lex p) \<and> (s \<noteq> None \<longrightarrow> length (lex q) < length (lex p))"
  "\<forall>b q. parseBlock p = (Ok b, q) \<longrightarrow> length (lex q) < length (lex p)"
  "\<forall>r q. parseBlockLoop statements p = (Ok r, q) \<longrightarrow> length (lex q) \<le> length (lex p)"
  "\<forall>s q. parseCondStmt p = (Ok s, q) \<longrightarrow> length (lex q) < length (lex p)"
  "\<forall>c q. parseIfCond p = (Ok c, q) \<longrightarrow> length (lex q) < length (lex p)"
  "\<forall>r q. parseElifConds elifConds p = (Ok r, q) \<longrightarrow> length (lex q) \<le> length (lex p)"
  "\<forall>c q. parseElseCond p = (Ok c, q) \<longrightarrow> length (lex q) \<le> length (lex p)"
  "\<forall>s q. parseForLoop p = (Ok s, q) \<longrightarrow> length (lex q) < length (lex p)"
  "\<forall>s q. parseWhileLoop p = (Ok s, q) \<longrightarrow> length (lex q) < length (lex p)"
proof (induct p and p and statements p and p and p and elifConds p and p and p and p
    rule: stmt_induct)
  case (1 p)
  show ?case
  proof (intro allI impI)
    fix s q
    assume r: "parseStmt p = (Ok s, q)"
    let ?k = "Kind (Peek (lex p))"
    consider (ret) "?k = RETURN" | (ident) "?k = ID" | (cond) "?k = IF" | (forLoop) "?k = FOR"
      | (whileLoop) "?k = WHILE"
      | (other) "?k \<noteq> RETURN" "?k \<noteq> ID" "?k \<noteq> IF" "?k \<noteq> FOR" "?k \<noteq> WHILE"
      by blast
    then show "length (lex q) \<le> length (lex p) \<and> (s \<noteq> None \<longrightarrow> length (lex q) < length (lex p))"
    proof cases
      case ret
      with r skip_le [of "skip p"] skip_shorter [of p] show ?thesis
        by (subst (asm) parseStmt.simps)
           (auto simp: Let_def split: prod.splits outcome.splits if_splits
                 dest!: expect_lex(1) expr_advances(1))
    next
      case ident
      with r show ?thesis
        by (subst (asm) parseStmt.simps)
           (auto simp: Let_def split: prod.splits outcome.splits if_splits
                 dest!: expect_lex(1) ParseIdStmt_lex)
    next
      case cond
      then have "\<forall>s q. parseCondStmt p = (Ok s, q) \<longrightarrow> length (lex q) < length (lex p)"
        by (intro "1"(1) [OF refl]) simp_all
      with r cond show ?thesis
        by (subst (asm) parseStmt.simps) (auto simp: Let_def split: prod.splits outcome.splits)
    next
      case forLoop
      then have "\<forall>s q. parseForLoop p = (Ok s, q) \<longrightarrow> length (lex q) < length (lex p)"
        by (intro "1"(2) [OF refl]) simp_all
      with r forLoop show ?thesis
        by (subst (asm) parseStmt.simps) (auto simp: Let_def split: prod.splits outcome.splits)
    next
      case whileLoop
      then have "\<forall>s q. parseWhileLoop p = (Ok s, q) \<longrightarrow> length (lex q) < length (lex p)"
        by (intro "1"(3) [OF refl]) simp_all
      with r whileLoop show ?thesis
        by (subst (asm) parseStmt.simps) (auto simp: Let_def split: prod.splits outcome.splits)
    next
      case other
      with r show ?thesis
        by (subst (asm) parseStmt.simps) (simp add: Let_def)
    qed
  qed
next
  case (2 p)
  show ?case
  proof (intro allI impI)
    fix b q
    assume r: "parseBlock p = (Ok b, q)"
    then obtain t1 p1 sts p2 t2 where
      e1: "expect p OPEN_CURLY = ((t1, True), p1)" and
      l: "parseBlockLoop [] p1 = (Ok sts, p2)" and
      e2: "expect p2 CLOSE_CURLY = ((t2, True), q)"
      by (subst (asm) parseBlock.simps) (auto split: prod.splits outcome.splits if_splits)
    from "2" [OF e1 [symmetric] refl] l have "length (lex p2) \<le> length (lex p1)" by simp
    with expect_lex(2) [OF e1] expect_lex(2) [OF e2]
    show "length (lex q) < length (lex p)" by simp
  qed
next
  case (3 statements p)
  show ?case
  proof (intro allI impI)
    fix r q
    assume a: "parseBlockLoop statements p = (Ok r, q)"
    show "length (lex q) \<le> length (lex p)"
    proof (cases "Kind (Peek (lex p)) = CLOSE_CURLY")
      case True
      with a show ?thesis by (subst (asm) parseBlockLoop.simps) (simp add: Let_def)
    next
      case False
      note ih = "3"(1) [OF refl False, rule_format]
      obtain r1 p1 where s: "parseStmt p = (r1, p1)" by (cases "parseStmt p")
      from a False s obtain o1 where o: "r1 = Ok o1"
        by (subst (asm) parseBlockLoop.simps) (auto simp: Let_def split: outcome.splits)
      show ?thesis
      proof (cases o1)
        case None
        with a False s o ih [of None p1] show ?thesis
          by (subst (asm) parseBlockLoop.simps) (simp add: Let_def)
      next
        case (Some stmt)
        with ih [of "Some stmt" p1] s o have adv: "advanced p1 p" by (simp add: advanced_def)
        with a False s o Some have "parseBlockLoop (statements @ [stmt]) p1 = (Ok r, q)"
          by (subst (asm) parseBlockLoop.simps) (simp add: Let_def)
        with "3"(2) [OF refl False _ o Some adv] s
        have "length (lex q) \<le> length (lex p1)" by simp
        with adv show ?thesis by (simp add: advanced_def)
      qed
    qed
  qed
next
  case (4 p)
  show ?case
  proof (intro allI impI)
    fix s q
    assume r: "parseCondStmt p = (Ok s, q)"
    then obtain c p1 es p2 el where
      i: "parseIfCond p = (Ok c, p1)" and a1: "advanced p1 p" and
      e: "parseElifConds [] p1 = (Ok es, p2)" and a2: "advanced p2 p" and
      l: "parseElseCond p2 = (Ok el, q)"
      by (subst (asm) parseCondStmt.simps)
         (auto simp: stuck_def split: prod.splits outcome.splits if_splits)
    from "4"(3) [OF i [symmetric] refl _ e [symmetric] refl] a1 a2 l
    have "length (lex q) \<le> length (lex p2)" by simp
    with a2 show "length (lex q) < length (lex p)" by (simp add: advanced_def)
  qed
next
  case (5 p)
  show ?case
  proof (intro allI impI)
    fix c q
    assume r: "parseIfCond p = (Ok c, q)"
    then obtain t1 p1 e p2 b where
      e1: "expect p IF = ((t1, True), p1)" and
      x: "parseExpr p1 = (Ok e, p2)" and
      l: "parseBlock p2 = (Ok b, q)"
      by (subst (asm) parseIfCond.simps) (auto split: prod.splits outcome.splits if_splits)
    from "5" [OF e1 [symmetric] refl _ x [symmetric] refl] l
    have "length (lex q) < length (lex p2)" by simp
    with expect_lex(2) [OF e1] expr_advances(1) [OF x]
    show "length (lex q) < length (lex p)" by simp
  qed
next
  case (6 elifConds p)
  show ?case
  proof (intro allI impI)
    fix r q
    assume a: "parseElifConds elifConds p = (Ok r, q)"
    obtain t1 ok p1 where e1: "expect p ELIF = ((t1, ok), p1)"
      by (cases "expect p ELIF") auto
    show "length (lex q) \<le> length (lex p)"
    proof (cases ok)
      case False
      with a e1 expect_lex(1) [OF e1] show ?thesis
        by (subst (asm) parseElifConds.simps) simp
    next
      case True
      with a e1 obtain e p2 b p3 where
        x: "parseExpr p1 = (Ok e, p2)" and
        l: "parseBlock p2 = (Ok b, p3)" and adv: "advanced p3 p2" and
        n: "parseElifConds (elifConds @ [IfElifCond (Pos t1) e b]) p3 = (Ok r, q)"
        by (subst (asm) parseElifConds.simps)
           (auto simp: stuck_def split: prod.splits outcome.splits if_splits)
      from "6"(2) [OF e1 [symmetric] refl _ x [symmetric] refl l [symmetric] refl adv] True n
      have "length (lex q) \<le> length (lex p3)" by simp
      with adv expr_advances(1) [OF x] expect_lex(1) [OF e1]
      show ?thesis by (simp add: advanced_def)
    qed
  qed
next
  case (7 p)
  show ?case
  proof (intro allI impI)
    fix c q
    assume a: "parseElseCond p = (Ok c, q)"
    obtain t1 ok p1 where e1: "expect p ELSE = ((t1, ok), p1)"
      by (cases "expect p ELSE") auto
    show "length (lex q) \<le> length (lex p)"
    proof (cases ok)
      case False
      with a e1 expect_lex(1) [OF e1] show ?thesis
        by (subst (asm) parseElseCond.simps) simp
    next
      case True
      with a e1 obtain b where l: "parseBlock p1 = (Ok b, q)"
        by (subst (asm) parseElseCond.simps) (auto split: prod.splits outcome.splits)
      from "7" [OF e1 [symmetric] refl] True l
      have "length (lex q) < length (lex p1)" by simp
      with expect_lex(1) [OF e1] show ?thesis by simp
    qed
  qed
next
  case (8 p)
  show ?case
  proof (intro allI impI)
    fix s q
    assume r: "parseForLoop p = (Ok s, q)"
    then obtain t1 p1 t2 p2 init p3 t4 p4 cond p5 t6 p6 update p7 t8 p8 b where
      e1: "expect p FOR = ((t1, True), p1)" and
      e2: "expect p1 OPEN_PAREN = ((t2, True), p2)" and
      v1: "parseVar p2 = (Ok init, p3)" and
      e4: "expect p3 SEMICOLON = ((t4, True), p4)" and
      x: "parseExpr p4 = (Ok cond, p5)" and
      e6: "expect p5 SEMICOLON = ((t6, True), p6)" and
      v2: "parseVar p6 = (Ok update, p7)" and
      e8: "expect p7 CLOSE_PAREN = ((t8, True), p8)" and
      l: "parseBlock p8 = (Ok b, q)"
      by (subst (asm) parseForLoop.simps) (auto split: prod.splits outcome.splits if_splits)
    from "8" [OF e1 [symmetric] refl _ e2 [symmetric] refl _ v1 [symmetric] refl
                e4 [symmetric] refl _ x [symmetric] refl e6 [symmetric] refl _
                v2 [symmetric] refl e8 [symmetric] refl] l
    have "length (lex q) < length (lex p8)" by simp
    with expect_lex(2) [OF e1] expect_lex(2) [OF e2] parseVar_lex [OF v1] expect_lex(2) [OF e4]
      expr_advances(1) [OF x] expect_lex(2) [OF e6] parseVar_lex [OF v2] expect_lex(2) [OF e8]
    show "length (lex q) < length (lex p)" by simp
  qed
next
  case (9 p)
  show ?case
  proof (intro allI impI)
    fix s q
    assume r: "parseWhileLoop p = (Ok s, q)"
    then obtain t1 p1 e p2 b where
      e1: "expect p WHILE = ((t1, True), p1)" and
      x: "parseExpr p1 = (Ok e, p2)" and
      l: "parseBlock p2 = (Ok b, q)"
      by (subst (asm) parseWhileLoop.simps) (auto split: prod.splits outcome.splits if_splits)
    from "9" [OF e1 [symmetric] refl _ x [symmetric] refl] l
    have "length (lex q) < length (lex p2)" by simp
    with expect_lex(2) [OF e1] expr_advances(1) [OF x]
    show "length (lex q) < length (lex p)" by simp
  qed
qed

lemmas stmt_advances = stmt_progress [rule_format]





section \<open>Declarations\<close>

function parseParamsLoop :: "Field list \<Rightarrow> Parser \<Rightarrow> (Field list \<times> bool) result" where
  "parseParamsLoop params p =
     (if NextIs (lex p) CLOSE_PAREN then (Ok (params, False), p)
      else if NextIs (lex p) DOT_DOT_DOT then
        (let tok = Peek (lex p); pos = Pos tok; p1 = skip p in
         if \<not> NextIs (lex p1) CLOSE_PAREN then
           (Err COMPILER_ERROR_FOUND,
            ReportAndSave p1
              \<lparr>At = pos, Message = ''... is only allowed at the end of parameter list'',
               Args = []\<rparr>)
         else (Ok (params, True), p1))
      else
        (case expect p ID of
           ((name, ok), p1) \<Rightarrow>
             if \<not> ok then
               (Err COMPILER_ERROR_FOUND,
                ReportAndSave p1
                  \<lparr>At = Pos name, Message = ''expected parameter or ), not %s'',
                   Args = [ArgKind (Kind name)]\<rparr>)
             else
               (case parseExprType p1 of
                  (Err e, p2) \<Rightarrow>
                    (let tok = Peek (lex p2) in
                     (Err COMPILER_ERROR_FOUND,
                      ReportAndSave p2
                        \<lparr>At = Pos tok,
                         Message = ''expected parameter type for '' @ quoted ''%s'' @ '', not %s'',
                         Args = [ArgStr (Lexeme name), ArgKind (Kind tok)]\<rparr>))
                | (Abort a, p2) \<Rightarrow> (Abort a, p2)
                | (Ok paramType, p2) \<Rightarrow>
                    (let params = params @ [\<lparr>FieldName = name, FieldType = paramType\<rparr>] in
                     if NextIs (lex p2) COMMA then parseParamsLoop params (skip p2)
                     else parseParamsLoop params p2))))"
  by pat_completeness auto
termination
  apply (relation "measure (\<lambda>(params, p). length (lex p))")
  apply simp_all
  subgoal
    apply (drule expect_shorter, assumption, simp)
    apply (drule sym [of _ "parseExprType _"], drule parseExprType_lex)
    apply (meson skip_le le_less_trans)
    done
  subgoal
    apply (drule expect_shorter, assumption, simp)
    apply (drule sym [of _ "parseExprType _"], drule parseExprType_lex)
    apply simp
    done
  done

declare parseParamsLoop.simps [simp del]

definition parseFunctionParams :: "Parser \<Rightarrow> FieldList result" where
  "parseFunctionParams p =
     (case expect p OPEN_PAREN of
        ((openParen, ok), p1) \<Rightarrow>
          if \<not> ok then
            (Err COMPILER_ERROR_FOUND,
             ReportAndSave p1
               \<lparr>At = Pos openParen, Message = ''expected (, not %s'',
                Args = [ArgKind (Kind openParen)]\<rparr>)
          else
            (case parseParamsLoop [] p1 of
               (Err e, p2) \<Rightarrow> (Err e, p2)
             | (Abort a, p2) \<Rightarrow> (Abort a, p2)
             | (Ok (params, isVariadic), p2) \<Rightarrow>
                 (case expect p2 CLOSE_PAREN of
                    ((closeParen, ok), p3) \<Rightarrow>
                      if \<not> ok then
                        (Err COMPILER_ERROR_FOUND,
                         ReportAndSave p3
                           \<lparr>At = Pos closeParen, Message = ''expected ), not %s'',
                            Args = [ArgKind (Kind closeParen)]\<rparr>)
                      else
                        (Ok \<lparr>Open = openParen, Fields = params, IsVariadic = isVariadic,
                             Close = closeParen\<rparr>, p3))))"

definition parseReturnType :: "bool \<Rightarrow> Parser \<Rightarrow> ExprType result" where
  "parseReturnType isPrototype p =
     (if (isPrototype \<and> NextIs (lex p) SEMICOLON) \<or> NextIs (lex p) OPEN_CURLY then
        (Ok (BasicType VOID_TYPE), p)
      else
        (case parseExprType p of
           (Err e, p1) \<Rightarrow>
             (let tok = Peek (lex p1) in
              (Err COMPILER_ERROR_FOUND,
               ReportAndSave p1
                 \<lparr>At = Pos tok, Message = ''expected type or {, not %s'',
                  Args = [ArgKind (Kind tok)]\<rparr>))
         | (Abort a, p1) \<Rightarrow> (Abort a, p1)
         | (Ok returnType, p1) \<Rightarrow> (Ok returnType, p1)))"

text \<open>Modelled from the spec: \<open>Token.Name\<close>, the text of an identifier token.\<close>

definition TokenName :: "Token \<Rightarrow> string" where
  "TokenName t = Lexeme t"

text \<open>
  Modelled from the spec: the scopes of package \<open>ast\<close> (\<open>ast.Scope\<close>, \<open>ast.NewScope\<close>,
  \<open>(*ast.Scope).Insert\<close> and \<open>ast.ERR_SYMBOL_ALREADY_DEFINED_ON_SCOPE\<close>), which the parser
  uses and which are not among the sources. The spec describes a scope as a mapping
  from names to bound entities with a reference to an optional parent, so the
  parser's scopes are kept in a store of such objects; \<open>NewScope\<close> allocates a scope
  with the given parent and no binding.
\<close>

definition NewScope :: "Node store \<Rightarrow> nat option \<Rightarrow> nat \<times> Node store" where
  "NewScope h par = (length h, h @ [\<lparr>parent = par, nodes = Map.empty\<rparr>])"

text \<open>
  Modelled from the spec: what \<open>(*ast.Scope).Insert\<close> answers and which error value
  \<open>ast.ERR_SYMBOL_ALREADY_DEFINED_ON_SCOPE\<close> is cannot be read from the sources, so both
  are parameters of the parser: \<open>ScopeInsert\<close> is the insertion (store, scope, name and
  node to the answer and the new store) and \<open>ERR_SYMBOL_ALREADY_DEFINED_ON_SCOPE\<close> is the
  error value the parser compares the answer with.
\<close>

record AstScopes =
  ScopeInsert :: "Node store \<Rightarrow> nat \<Rightarrow> string \<Rightarrow> Node \<Rightarrow> unit outcome \<times> Node store"
  ERR_SYMBOL_ALREADY_DEFINED_ON_SCOPE :: error

definition parseFnDecl :: "AstScopes \<Rightarrow> Parser \<Rightarrow> FunctionDecl result" where
  "parseFnDecl ast p =
     (case expect p FN of
        ((_, ok), p1) \<Rightarrow>
          if \<not> ok then (Err (Errorf (''expected '' @ quoted ''fn'') []), p1)
          else
            (case expect p1 ID of
               ((name, ok), p2) \<Rightarrow>
                 if \<not> ok then
                   (Err COMPILER_ERROR_FOUND,
                    ReportAndSave p2
                      \<lparr>At = Pos name, Message = ''expected name, not %s'',
                       Args = [ArgKind (Kind name)]\<rparr>)
                 else
                   (case parseFunctionParams p2 of
                      (Err e, p3) \<Rightarrow> (Err e, p3)
                    | (Abort a, p3) \<Rightarrow> (Abort a, p3)
                    | (Ok params, p3) \<Rightarrow>
                        (case parseReturnType False p3 of
                           (Err e, p4) \<Rightarrow> (Err e, p4)
                         | (Abort a, p4) \<Rightarrow> (Abort a, p4)
                         | (Ok returnType, p4) \<Rightarrow>
                             (case parseBlock p4 of
                                (Err e, p5) \<Rightarrow> (Err e, p5)
                              | (Abort a, p5) \<Rightarrow> (Abort a, p5)
                              | (Ok block, p5) \<Rightarrow>
                                  (case NewScope (scopes p5) (moduleScope p5) of
                                     (fnScope, h) \<Rightarrow>
                                       (let fnDecl =
                                              \<lparr>FnScope = fnScope, FnName = name, Params = params,
                                               Block = block, RetType = returnType\<rparr>;
                                            p6 = p5\<lparr>scopes := h\<rparr> in
                                        case moduleScope p6 of
                                          None \<Rightarrow> (Abort NilDereference, p6)
                                        | Some ms \<Rightarrow>
                                            (case ScopeInsert ast (scopes p6) ms (TokenName name)
                                                    (FunctionDeclNode fnDecl) of
                                               (Ok u, h') \<Rightarrow> (Ok fnDecl, p6\<lparr>scopes := h'\<rparr>)
                                             | (Abort a, h') \<Rightarrow> (Abort a, p6\<lparr>scopes := h'\<rparr>)
                                             | (Err err, h') \<Rightarrow>
                                                 (Err err,
                                                  if err = ERR_SYMBOL_ALREADY_DEFINED_ON_SCOPE ast then
                                                    ReportAndSave (p6\<lparr>scopes := h'\<rparr>)
                                                      \<lparr>At = Pos name,
                                                       Message = ''function '' @ quoted ''%s''
                                                         @ '' already declared on scope'',
                                                       Args = [ArgStr (TokenName name)]\<rparr>
                                                  else p6\<lparr>scopes := h'\<rparr>)))))))))"

definition parsePrototype :: "Parser \<Rightarrow> Proto result" where
  "parsePrototype p =
     (case expect p FN of
        ((fn, ok), p1) \<Rightarrow>
          if \<not> ok then
            (Err COMPILER_ERROR_FOUND,
             ReportAndSave p1
               \<lparr>At = Pos fn, Message = ''expected prototype or }, not %s'',
                Args = [ArgKind (Kind fn)]\<rparr>)
          else
            (case expect p1 ID of
               ((name, ok), p2) \<Rightarrow>
                 if \<not> ok then
                   (Err COMPILER_ERROR_FOUND,
                    ReportAndSave p2
                      \<lparr>At = Pos name, Message = ''expected name, not %s'',
                       Args = [ArgKind (Kind name)]\<rparr>)
                 else
                   (case parseFunctionParams p2 of
                      (Err e, p3) \<Rightarrow> (Err e, p3)
                    | (Abort a, p3) \<Rightarrow> (Abort a, p3)
                    | (Ok params, p3) \<Rightarrow>
                        (case parseReturnType True p3 of
                           (Err e, p4) \<Rightarrow> (Err e, p4)
                         | (Abort a, p4) \<Rightarrow> (Abort a, p4)
                         | (Ok returnType, p4) \<Rightarrow>
                             (case expect p4 SEMICOLON of
                                ((semicolon, ok), p5) \<Rightarrow>
                                  if \<not> ok then
                                    (Err COMPILER_ERROR_FOUND,
                                     ReportAndSave p5
                                       \<lparr>At = Pos semicolon,
                                        Message = ''expected ; at the end of prototype, not %s'',
                                        Args = [ArgKind (Kind semicolon)]\<rparr>)
                                  else
                                    (Ok \<lparr>ProtoName = name, ProtoParams = params,
                                         ProtoRetType = returnType\<rparr>, p5))))))"

lemma parseParamsLoop_lex:
  "parseParamsLoop ps p = (Ok r, q) \<Longrightarrow> length (lex q) \<le> length (lex p)"
proof (induction ps p arbitrary: r q rule: parseParamsLoop.induct)
  case (1 params p)
  show ?case
  proof (cases "NextIs (lex p) CLOSE_PAREN \<or> NextIs (lex p) DOT_DOT_DOT")
    case True
    with "1.prems" skip_le [of p] show ?thesis
      by (subst (asm) parseParamsLoop.simps) (auto simp: Let_def split: if_splits)
  next
    case False
    with "1.prems" obtain name p1 ty p2 where
      e: "expect p ID = ((name, True), p1)" and t: "parseExprType p1 = (Ok ty, p2)"
      by (subst (asm) parseParamsLoop.simps)
         (auto simp: Let_def split: prod.splits outcome.splits if_splits)
    note lt = expect_lex(2) [OF e] parseExprType_lex [OF t]
    let ?ps = "params @ [\<lparr>FieldName = name, FieldType = ty\<rparr>]"
    show ?thesis
    proof (cases "NextIs (lex p2) COMMA")
      case True
      with "1.prems" False e t have "parseParamsLoop ?ps (skip p2) = (Ok r, q)"
        by (subst (asm) parseParamsLoop.simps) (simp add: Let_def)
      from "1.IH"(1) [OF _ _ e [symmetric] refl _ t [symmetric] refl refl True this] False
      have "length (lex q) \<le> length (lex (skip p2))" by simp
      with lt skip_le [of p2] show ?thesis by simp
    next
      case nc: False
      with "1.prems" False e t have "parseParamsLoop ?ps p2 = (Ok r, q)"
        by (subst (asm) parseParamsLoop.simps) (simp add: Let_def)
      from "1.IH"(2) [OF _ _ e [symmetric] refl _ t [symmetric] refl refl nc this] False
      have "length (lex q) \<le> length (lex p2)" by simp
      with lt show ?thesis by simp
    qed
  qed
qed

lemma parseFunctionParams_lex:
  "parseFunctionParams p = (Ok r, q) \<Longrightarrow> length (lex q) < length (lex p)"
  by (auto simp: parseFunctionParams_def split: prod.splits outcome.splits if_splits
           dest!: expect_lex(2) parseParamsLoop_lex)

lemma parseReturnType_lex:
  "parseReturnType b p = (Ok r, q) \<Longrightarrow> length (lex q) \<le> length (lex p)"
  by (auto simp: parseReturnType_def Let_def split: prod.splits outcome.splits if_splits
           dest!: parseExprType_lex)

lemma scopes_update_lex [simp]: "lex (p\<lparr>scopes := h\<rparr>) = lex p"
  by simp

lemma parseFnDecl_lex:
  "parseFnDecl ast p = (Ok r, q) \<Longrightarrow> length (lex q) < length (lex p)"
  by (auto simp: parseFnDecl_def Let_def
           split: prod.splits outcome.splits option.splits if_splits
           dest!: expect_lex(2) parseFunctionParams_lex parseReturnType_lex stmt_advances(2))

lemma parsePrototype_lex:
  "parsePrototype p = (Ok r, q) \<Longrightarrow> length (lex q) < length (lex p)"
  by (auto simp: parsePrototype_def Let_def
           split: prod.splits outcome.splits option.splits if_splits
           dest!: expect_lex(2) parseFunctionParams_lex parseReturnType_lex)

function parsePrototypes :: "Proto list \<Rightarrow> Parser \<Rightarrow> (Proto list) result" where
  "parsePrototypes prototypes p =
     (if NextIs (lex p) CLOSE_CURLY then (Ok prototypes, p)
      else
        (case parsePrototype p of
           (Err e, p1) \<Rightarrow> (Err e, p1)
         | (Abort a, p1) \<Rightarrow> (Abort a, p1)
         | (Ok proto, p1) \<Rightarrow> parsePrototypes (prototypes @ [proto]) p1))"
  by pat_completeness auto
termination
  apply (relation "measure (\<lambda>(prototypes, p). length (lex p))")
  apply simp_all
  apply (drule sym [of _ "parsePrototype _"], drule parsePrototype_lex, simp)
  done

declare parsePrototypes.simps [simp del]

definition parseExternDecl :: "Parser \<Rightarrow> ExternDecl result" where
  "parseExternDecl p =
     (case expect p EXTERN of
        ((_, ok), p1) \<Rightarrow>
          if \<not> ok then (Err (Errorf (''expected '' @ quoted ''extern'') []), p1)
          else
            (case expect p1 ID of
               ((name, ok), p2) \<Rightarrow>
                 if \<not> ok then
                   (Err COMPILER_ERROR_FOUND,
                    ReportAndSave p2
                      \<lparr>At = Pos name, Message = ''expected name, not %s'',
                       Args = [ArgKind (Kind name)]\<rparr>)
                 else
                   (case expect p2 OPEN_CURLY of
                      ((openCurly, ok), p3) \<Rightarrow>
                        if \<not> ok then
                          (Err COMPILER_ERROR_FOUND,
                           ReportAndSave p3
                             \<lparr>At = Pos openCurly, Message = ''expected {, not %s'',
                              Args = [ArgKind (Kind openCurly)]\<rparr>)
                        else
                          (case parsePrototypes [] p3 of
                             (Err e, p4) \<Rightarrow> (Err e, p4)
                           | (Abort a, p4) \<Rightarrow> (Abort a, p4)
                           | (Ok prototypes, p4) \<Rightarrow>
                               (case expect p4 CLOSE_CURLY of
                                  ((closeCurly, ok), p5) \<Rightarrow>
                                    if \<not> ok then
                                      (Err COMPILER_ERROR_FOUND,
                                       ReportAndSave p5
                                         \<lparr>At = Pos closeCurly, Message = ''expected }, not %s'',
                                          Args = [ArgKind (Kind closeCurly)]\<rparr>)
                                    else
                                      (Ok \<lparr>ExternName = name, Prototypes = prototypes\<rparr>,
                                       p5))))))"

text \<open>The parser's \<open>next\<close>: the next top-level declaration. The pair (node, eof) of the
  source is \<open>None\<close> at the end of the input and \<open>Some node\<close> before it.\<close>

definition nextNode :: "AstScopes \<Rightarrow> Parser \<Rightarrow> (Node option) result" where
  "nextNode ast p =
     (let tok = Peek (lex p) in
      if Kind tok = EOF then (Ok None, p)
      else if Kind tok = FN then
        (case parseFnDecl ast p of
           (Ok fnDecl, p1) \<Rightarrow> (Ok (Some (FunctionDeclNode fnDecl)), p1)
         | (Err e, p1) \<Rightarrow> (Err e, p1)
         | (Abort a, p1) \<Rightarrow> (Abort a, p1))
      else if Kind tok = EXTERN then
        (case parseExternDecl p of
           (Ok externDecl, p1) \<Rightarrow> (Ok (Some (ExternDeclNode externDecl)), p1)
         | (Err e, p1) \<Rightarrow> (Err e, p1)
         | (Abort a, p1) \<Rightarrow> (Abort a, p1))
      else
        (Err COMPILER_ERROR_FOUND,
         ReportAndSave p
           \<lparr>At = Pos tok,
            Message = ''unexpected non-declaration statement on global scope'',
            Args = []\<rparr>))"

lemma parsePrototypes_lex:
  "parsePrototypes ps p = (Ok r, q) \<Longrightarrow> length (lex q) \<le> length (lex p)"
proof (induction ps p arbitrary: r q rule: parsePrototypes.induct)
  case (1 prototypes p)
  show ?case
  proof (cases "NextIs (lex p) CLOSE_CURLY")
    case True
    with "1.prems" show ?thesis by (subst (asm) parsePrototypes.simps) simp
  next
    case False
    with "1.prems" obtain proto p1 where
      a: "parsePrototype p = (Ok proto, p1)" and
      b: "parsePrototypes (prototypes @ [proto]) p1 = (Ok r, q)"
      by (subst (asm) parsePrototypes.simps) (auto split: prod.splits outcome.splits)
    from "1.IH" [OF False a [symmetric] refl b] parsePrototype_lex [OF a]
    show ?thesis by simp
  qed
qed

lemma parseExternDecl_lex:
  "parseExternDecl p = (Ok r, q) \<Longrightarrow> length (lex q) < length (lex p)"
  by (auto simp: parseExternDecl_def
           split: prod.splits outcome.splits if_splits
           dest!: expect_lex(2) parsePrototypes_lex)

lemma nextNode_lex:
  "nextNode ast p = (Ok (Some n), q) \<Longrightarrow> length (lex q) < length (lex p)"
  by (auto simp: nextNode_def Let_def split: prod.splits outcome.splits if_splits
           dest!: parseFnDecl_lex parseExternDecl_lex)

function parseFileNodes :: "AstScopes \<Rightarrow> Node list \<Rightarrow> Parser \<Rightarrow> (Node list) result" where
  "parseFileNodes ast fileNodes p =
     (case nextNode ast p of
        (Err e, p1) \<Rightarrow> (Err e, p1)
      | (Abort a, p1) \<Rightarrow> (Abort a, p1)
      | (Ok None, p1) \<Rightarrow> (Ok fileNodes, p1)
      | (Ok (Some node), p1) \<Rightarrow> parseFileNodes ast (fileNodes @ [node]) p1)"
  by pat_completeness auto
termination
  apply (relation "measure (\<lambda>(ast, fileNodes, p). length (lex p))")
  apply simp_all
  apply (drule sym [of _ "nextNode _ _"], drule nextNode_lex, simp)
  done

declare parseFileNodes.simps [simp del]

record Lexer =
  ParentDirName :: string
  Path :: string
  Tokens :: "Token list"

record File =
  Dir :: string
  FilePath :: string
  FileScope :: nat
  Body :: "Node list"

datatype Module = Module string nat "Module list" "File list" bool

record Program =
  Root :: Module

definition parseFile :: "AstScopes \<Rightarrow> Parser \<Rightarrow> Lexer \<Rightarrow> nat option \<Rightarrow> File result" where
  "parseFile ast p lexer modScope =
     (case NewScope (scopes p) modScope of
        (fileScope, h) \<Rightarrow>
          (case parseFileNodes ast [] (p\<lparr>scopes := h, lex := Tokens lexer, moduleScope := modScope\<rparr>) of
             (Err e, p1) \<Rightarrow> (Err e, p1)
           | (Abort a, p1) \<Rightarrow> (Abort a, p1)
           | (Ok fileNodes, p1) \<Rightarrow>
               (Ok \<lparr>Dir = ParentDirName lexer, FilePath = Path lexer, FileScope = fileScope,
                    Body = fileNodes\<rparr>, p1)))"

definition ParseFileAsProgram :: "AstScopes \<Rightarrow> Parser \<Rightarrow> Lexer \<Rightarrow> Program result" where
  "ParseFileAsProgram ast p lexer =
     (case NewScope (scopes p) None of
        (universe, h) \<Rightarrow>
          (case NewScope h (Some universe) of
             (modScope, h1) \<Rightarrow>
               (case parseFile ast (p\<lparr>scopes := h1\<rparr>) lexer (Some modScope) of
                  (Err e, p1) \<Rightarrow> (Err e, p1)
                | (Abort a, p1) \<Rightarrow> (Abort a, p1)
                | (Ok file, p1) \<Rightarrow>
                    (Ok \<lparr>Root = Module (ParentDirName lexer) modScope [] [file] True\<rparr>, p1))))"

section \<open>The module tree\<close>

text \<open>
  The file system as the builder sees it: what \<open>os.ReadDir\<close> answers for a directory
  (its entries, or an error), and for a regular file what \<open>lexer.NewFromFilePath\<close>
  answers (an error, or the token stream of the file).
\<close>

datatype DirEntry = DirectoryEntry string Listing | RegularFile string "error + Token list"
  and Listing = Entries "DirEntry list" | ReadDirFails error

fun EntryName :: "DirEntry \<Rightarrow> string" where
  "EntryName (DirectoryEntry name listing) = name"
| "EntryName (RegularFile name content) = name"

text \<open>Go's \<open>filepath.Join\<close>, \<open>filepath.Ext\<close> and \<open>filepath.Base (filepath.Dir _)\<close>, for
  slash-separated paths that need no cleaning.\<close>

definition Join :: "string \<Rightarrow> string \<Rightarrow> string" where
  "Join path name = path @ ''/'' @ name"

definition Ext :: "string \<Rightarrow> string" where
  "Ext path =
     (let r = takeWhile (\<lambda>c. c \<noteq> CHR ''/'') (rev path) in
      if CHR ''.'' \<in> set r then rev (takeWhile (\<lambda>c. c \<noteq> CHR ''.'') r @ ''.'') else [])"

definition BaseOfDir :: "string \<Rightarrow> string" where
  "BaseOfDir fullPath =
     rev (takeWhile (\<lambda>c. c \<noteq> CHR ''/'')
            (drop 1 (dropWhile (\<lambda>c. c \<noteq> CHR ''/'') (rev fullPath))))"

fun buildModuleTree :: "AstScopes \<Rightarrow> Parser \<Rightarrow> string \<Rightarrow> Listing \<Rightarrow> Module
      \<Rightarrow> unit outcome \<times> Parser \<times> Module"
  and processModuleEntries ::
    "AstScopes \<Rightarrow> Parser \<Rightarrow> string \<Rightarrow> DirEntry list \<Rightarrow> Module
      \<Rightarrow> unit outcome \<times> Parser \<times> Module"
  and handler ::
    "AstScopes \<Rightarrow> Parser \<Rightarrow> DirEntry \<Rightarrow> string \<Rightarrow> Module
      \<Rightarrow> unit outcome \<times> Parser \<times> Module"
where
  "buildModuleTree ast p path (ReadDirFails err) module =
     (Err (Errorf ''failed to read directory %q: %w'' [ArgStr path, ArgStr (errorString err)]),
      p, module)"
| "buildModuleTree ast p path (Entries entries) module =
     processModuleEntries ast p path entries module"
| "processModuleEntries ast p path [] module = (Ok (), p, module)"
| "processModuleEntries ast p path (entry # entries) module =
     (case handler ast p entry (Join path (EntryName entry)) module of
        (Ok u, p1, module1) \<Rightarrow> processModuleEntries ast p1 path entries module1
      | (Err e, p1, module1) \<Rightarrow> (Err e, p1, module1)
      | (Abort a, p1, module1) \<Rightarrow> (Abort a, p1, module1))"
| "handler ast p (DirectoryEntry name listing) fullPath (Module n s ms fs r) =
     (case NewScope (scopes p) (Some s) of
        (childScope, h) \<Rightarrow>
          (case buildModuleTree ast (p\<lparr>scopes := h\<rparr>) fullPath listing
                  (Module [] childScope [] [] False) of
             (res, p1, childModule) \<Rightarrow> (res, p1, Module n s (ms @ [childModule]) fs r)))"
| "handler ast p (RegularFile name content) fullPath (Module n s ms fs r) =
     (if Ext name = ''.t'' then
        (case content of
           Inl err \<Rightarrow> (Err err, p, Module n s ms fs r)
         | Inr tokens \<Rightarrow>
             (case parseFile ast p
                     \<lparr>ParentDirName = BaseOfDir fullPath, Path = fullPath, Tokens = tokens\<rparr>
                     (Some s) of
                (Err e, p1) \<Rightarrow> (Err e, p1, Module n s ms fs r)
              | (Abort a, p1) \<Rightarrow> (Abort a, p1, Module n s ms fs r)
              | (Ok file, p1) \<Rightarrow> (Ok (), p1, Module n s ms (fs @ [file]) r)))
      else (Ok (), p, Module n s ms fs r))"

definition ParseModuleDir ::
  "AstScopes \<Rightarrow> Parser \<Rightarrow> string \<Rightarrow> Listing \<Rightarrow> Program result" where
  "ParseModuleDir ast p path listing =
     (case NewScope (scopes p) None of
        (universe, h) \<Rightarrow>
          (case buildModuleTree ast (p\<lparr>scopes := h\<rparr>) path listing (Module [] universe [] [] True) of
             (Err e, p1, root) \<Rightarrow> (Err e, p1)
           | (Abort a, p1, root) \<Rightarrow> (Abort a, p1)
           | (Ok u, p1, root) \<Rightarrow> (Ok \<lparr>Root = root\<rparr>, p1)))"

section \<open>Claims about scopes\<close>

text \<open>
  C3. \<open>Insert(n, v)\<close> on a scope fails with the duplicate-symbol error exactly when
  \<open>n\<close> is bound in that scope itself, and otherwise binds \<open>n\<close> to \<open>v\<close> there. The
  answer depends on nothing but the scope's own bindings, and no other scope of the
  store changes. In particular, whether or not \<open>n\<close> could be bound in a scope, once it
  is bound there a fresh child of that scope accepts \<open>n\<close>, and the parent object is
  left as it was.
\<close>

theorem Insert_local_only:
  "scope < length h \<Longrightarrow>
     Insert h scope name v =
       (if nodes (h ! scope) name \<noteq> None then (Err (duplicateSymbol name), h)
        else (Ok (), h[scope := (h ! scope)\<lparr>nodes := (nodes (h ! scope))(name \<mapsto> v)\<rparr>]))
     \<and> ((fst (Insert h scope name v) = Err (duplicateSymbol name))
          = (nodes (h ! scope) name \<noteq> None))
     \<and> (\<forall>h'. length h' = length h \<and> h' ! scope = h ! scope
            \<longrightarrow> fst (Insert h' scope name v) = fst (Insert h scope name v))
     \<and> length (snd (Insert h scope name v)) = length h
     \<and> (\<forall>s. s \<noteq> scope \<longrightarrow> snd (Insert h scope name v) ! s = h ! s)
     \<and> parent (snd (Insert h scope name v) ! scope) = parent (h ! scope)
     \<and> (let (r1, h1) = Insert h scope name w;
             (child, h2) = New h1 (Some scope);
             (r2, h3) = Insert h2 child name v
         in nodes (h2 ! scope) name \<noteq> None \<and> r2 = Ok () \<and> h3 ! scope = h2 ! scope
            \<and> nodes (h3 ! child) name = Some v \<and> parent (h3 ! child) = Some scope)"
  by (auto simp: Insert_def New_def duplicateSymbol_def nth_append nth_list_update
           split: option.splits)

theorem Insert_local_only_witness:
  "Insert [\<lparr>parent = None, nodes = [''x'' \<mapsto> (1::nat)]\<rparr>, \<lparr>parent = Some 0, nodes = Map.empty\<rparr>]
      1 ''x'' 2
   = (Ok (), [\<lparr>parent = None, nodes = [''x'' \<mapsto> 1]\<rparr>, \<lparr>parent = Some 0, nodes = [''x'' \<mapsto> 2]\<rparr>])
   \<and> fst (Insert [\<lparr>parent = None, nodes = [''x'' \<mapsto> (1::nat)]\<rparr>, \<lparr>parent = Some 0, nodes = Map.empty\<rparr>]
      0 ''x'' 2) = Err (duplicateSymbol ''x'')"
  using Insert_local_only
          [of 1 "[\<lparr>parent = None, nodes = [''x'' \<mapsto> (1::nat)]\<rparr>, \<lparr>parent = Some 0, nodes = Map.empty\<rparr>]"
              "''x''" 2 3]
        Insert_local_only
          [of 0 "[\<lparr>parent = None, nodes = [''x'' \<mapsto> (1::nat)]\<rparr>, \<lparr>parent = Some 0, nodes = Map.empty\<rparr>]"
              "''x''" 2 3]
  by simp

text \<open>
  C10. A failing \<open>Insert\<close> is atomic: when the name is already bound in the scope, the
  call answers with the duplicate-symbol error and the store it leaves is the store it
  found, the old binding included.
\<close>

theorem Insert_failure_atomic:
  "scope < length h \<Longrightarrow> nodes (h ! scope) name = Some w \<Longrightarrow>
     fst (Insert h scope name v) = Err (duplicateSymbol name)
     \<and> snd (Insert h scope name v) = h
     \<and> nodes (snd (Insert h scope name v) ! scope) name = Some w"
  by (simp add: Insert_bound)

theorem Insert_failure_atomic_witness:
  "Insert [\<lparr>parent = None, nodes = [''x'' \<mapsto> (1::nat)]\<rparr>] 0 ''x'' 2
   = (Err (duplicateSymbol ''x''), [\<lparr>parent = None, nodes = [''x'' \<mapsto> 1]\<rparr>])"
  using Insert_failure_atomic [of 0 "[\<lparr>parent = None, nodes = [''x'' \<mapsto> (1::nat)]\<rparr>]" "''x''" 1 2]
  by (simp add: prod_eq_iff)

text \<open>
  C4. Along the chain of a scope (the scope, then its ancestors in order, up to the
  scope without a parent), \<open>Lookup\<close> returns the binding of the first scope that binds
  the name, and it fails with the symbol-not-found error exactly when no scope of the
  chain binds it. It returns in both cases.
\<close>

theorem Lookup_nearest_enclosing:
  "chain h scope ps \<Longrightarrow>
     Lookup h scope name =
       Some (case firstBound h name ps of
               Some v \<Rightarrow> Ok v
             | None \<Rightarrow> Err (symbolNotFound name))
     \<and> ((Lookup h scope name = Some (Err (symbolNotFound name)))
          = (\<forall>s \<in> set ps. nodes (h ! s) name = None))
     \<and> hd ps = scope \<and> parent (h ! last ps) = None"
  by (auto simp: Lookup_chain firstBound_None [symmetric] chain_shape split: option.splits)

theorem Lookup_nearest_enclosing_witness:
  "Lookup [\<lparr>parent = None, nodes = [''x'' \<mapsto> (1::nat), ''y'' \<mapsto> 5]\<rparr>,
           \<lparr>parent = Some 0, nodes = [''y'' \<mapsto> 2]\<rparr>] 1 ''x'' = Some (Ok 1)
   \<and> Lookup [\<lparr>parent = None, nodes = [''x'' \<mapsto> (1::nat), ''y'' \<mapsto> 5]\<rparr>,
           \<lparr>parent = Some 0, nodes = [''y'' \<mapsto> 2]\<rparr>] 1 ''y'' = Some (Ok 2)
   \<and> Lookup [\<lparr>parent = None, nodes = [''x'' \<mapsto> (1::nat), ''y'' \<mapsto> 5]\<rparr>,
           \<lparr>parent = Some 0, nodes = [''y'' \<mapsto> 2]\<rparr>] 1 ''z'' = Some (Err (symbolNotFound ''z''))"
proof -
  let ?h = "[\<lparr>parent = None, nodes = [''x'' \<mapsto> (1::nat), ''y'' \<mapsto> 5]\<rparr>,
             \<lparr>parent = Some 0, nodes = [''y'' \<mapsto> 2]\<rparr>]"
  have "chain ?h 0 [0]" by (rule chain.root) simp_all
  then have c: "chain ?h 1 [1, 0]" by (rule chain.link [rotated 2]) simp_all
  show ?thesis
    using Lookup_nearest_enclosing [OF c, of "''x''"] Lookup_nearest_enclosing [OF c, of "''y''"]
      Lookup_nearest_enclosing [OF c, of "''z''"]
    by simp
qed

section \<open>Claims about expressions\<close>

subsection \<open>The precedence ladder\<close>










subsection \<open>Facts about the ladder\<close>















subsection \<open>The claims\<close>



text \<open>
  C2, as the code has it. For \<open>a.b.c\<close> the right operand of the field access is read by
  \<open>parsePrimary\<close>, and \<open>parsePrimary\<close> itself turns an identifier followed by a dot
  into a field access: the chain composes, nested to the right, as
  \<open>FieldAccess a (FieldAccess b c)\<close>, with all five tokens consumed. This holds
  whatever the names and positions of the tokens.
\<close>

theorem chained_field_access_nests_right:
  "parseExpr (p\<lparr>lex := [\<lparr>Kind = ID, Lexeme = a, Pos = pa\<rparr>, \<lparr>Kind = DOT, Lexeme = d1, Pos = pd1\<rparr>,
                         \<lparr>Kind = ID, Lexeme = b, Pos = pb\<rparr>, \<lparr>Kind = DOT, Lexeme = d2, Pos = pd2\<rparr>,
                         \<lparr>Kind = ID, Lexeme = c, Pos = pc\<rparr>]\<rparr>)
     = (Ok (FieldAccess (IdExpr \<lparr>Kind = ID, Lexeme = a, Pos = pa\<rparr>)
              (FieldAccess (IdExpr \<lparr>Kind = ID, Lexeme = b, Pos = pb\<rparr>)
                 (IdExpr \<lparr>Kind = ID, Lexeme = c, Pos = pc\<rparr>))),
        p\<lparr>lex := []\<rparr>)
   \<and> fieldAccesses
         (FieldAccess (IdExpr \<lparr>Kind = ID, Lexeme = a, Pos = pa\<rparr>)
            (FieldAccess (IdExpr \<lparr>Kind = ID, Lexeme = b, Pos = pb\<rparr>)
               (IdExpr \<lparr>Kind = ID, Lexeme = c, Pos = pc\<rparr>))) = 2"
  by (simp add: expr_eqs eval_defs)

text \<open>The claim as it was stated, one FieldAccess node and no nesting, fails on
  \<open>a.b.c\<close>.\<close>

theorem single_field_access_counterexample:
  "fst (parseExpr (onTokens [tk ID ''a'', tk DOT ''.'', tk ID ''b'', tk DOT ''.'', tk ID ''c'']))
     = Ok (FieldAccess (var ''a'') (FieldAccess (var ''b'') (var ''c'')))
   \<and> fieldAccesses (FieldAccess (var ''a'') (FieldAccess (var ''b'') (var ''c''))) \<noteq> 1"
  by (simp add: expr_eqs eval_defs)

section \<open>Claims about declarations\<close>

text \<open>A token with a position in \<open>main.t\<close>.\<close>

definition tkAt :: "Kind \<Rightarrow> string \<Rightarrow> nat \<Rightarrow> nat \<Rightarrow> Token" where
  "tkAt k s line column =
     \<lparr>Kind = k, Lexeme = s, Pos = \<lparr>Filename = ''main.t'', Line = line, Column = column\<rparr>\<rparr>"

lemmas decl_eqs =
  parseExprType.simps parseVarLoop.simps parseVar_def ParseIdStmt_def parseParamsLoop.simps
  parseFunctionParams_def parseReturnType_def parseFnDecl_def parsePrototype_def
  parsePrototypes.simps parseExternDecl_def nextNode_def parseFileNodes.simps parseFile_def
  ReportAndSave_def NewScope_def TokenName_def quoted_def tkAt_def








text \<open>The tokens that a successful parse consumes.\<close>

lemma skip_cons:
  "Kind (Peek (lex p)) \<noteq> EOF \<Longrightarrow> lex p = Peek (lex p) # lex (skip p)"
  by (cases "lex p") (simp_all add: skip_def eofToken_def)

lemma expect_cons:
  "expect p k = ((t, True), q) \<Longrightarrow> k \<noteq> EOF \<Longrightarrow> lex p = t # lex q \<and> Kind t = k"
  using skip_cons [of p] by (auto simp: expect_def Let_def split: if_splits)

lemma parseExprType_consumed:
  "parseExprType p = (Ok ty, q) \<Longrightarrow>
     \<exists>pre. lex p = pre @ lex q \<and> (\<forall>t \<in> set pre. Kind t \<noteq> DOT_DOT_DOT)"
proof (induction p arbitrary: ty q rule: parseExprType.induct)
  case (1 p)
  show ?case
  proof (cases "Kind (Peek (lex p)) = STAR")
    case True
    with "1.prems" obtain ty1 where s: "parseExprType (skip p) = (Ok ty1, q)"
      by (subst (asm) parseExprType.simps) (auto simp: Let_def split: prod.splits outcome.splits)
    from "1.IH" [OF refl True s] obtain pre where
      pre: "lex (skip p) = pre @ lex q" "\<forall>t \<in> set pre. Kind t \<noteq> DOT_DOT_DOT" by blast
    from True skip_cons [of p] have "lex p = Peek (lex p) # lex (skip p)" by simp
    with pre True have "lex p = (Peek (lex p) # pre) @ lex q
        \<and> (\<forall>t \<in> set (Peek (lex p) # pre). Kind t \<noteq> DOT_DOT_DOT)" by simp
    then show ?thesis by blast
  next
    case False
    with "1.prems" have q: "q = skip p" and k: "Kind (Peek (lex p)) = ID \<or> IsBasicType (Kind (Peek (lex p)))"
      by (subst (asm) parseExprType.simps, auto simp: Let_def split: if_splits)+
    from k have ne: "Kind (Peek (lex p)) \<noteq> EOF" "Kind (Peek (lex p)) \<noteq> DOT_DOT_DOT"
      by (auto simp: IsBasicType_def)
    from skip_cons [OF ne(1)] q ne(2)
    have "lex p = [Peek (lex p)] @ lex q \<and> (\<forall>t \<in> set [Peek (lex p)]. Kind t \<noteq> DOT_DOT_DOT)"
      by simp
    then show ?thesis by blast
  qed
qed

lemma parseParamsLoop_consumed:
  "parseParamsLoop ps p = (Ok (r, v), q) \<Longrightarrow>
     \<exists>front dots. lex p = front @ dots @ lex q \<and> Kind (Peek (lex q)) = CLOSE_PAREN
        \<and> (\<forall>t \<in> set front. Kind t \<noteq> DOT_DOT_DOT)
        \<and> (if v then \<exists>d. dots = [d] \<and> Kind d = DOT_DOT_DOT else dots = [])"
proof (induction ps p arbitrary: r v q rule: parseParamsLoop.induct)
  case (1 params p)
  show ?case
  proof (cases "NextIs (lex p) CLOSE_PAREN")
    case True
    with "1.prems" have "q = p" "\<not> v"
      by (subst (asm) parseParamsLoop.simps, simp)+
    with True have "lex p = [] @ [] @ lex q \<and> Kind (Peek (lex q)) = CLOSE_PAREN
        \<and> (\<forall>t \<in> set []. Kind t \<noteq> DOT_DOT_DOT)
        \<and> (if v then \<exists>d. [] = [d] \<and> Kind d = DOT_DOT_DOT else [] = [])"
      by (simp add: NextIs_def)
    then show ?thesis by blast
  next
    case nclose: False
    show ?thesis
    proof (cases "NextIs (lex p) DOT_DOT_DOT")
      case True
      with "1.prems" nclose have q: "q = skip p" and v: "v"
        and c: "NextIs (lex (skip p)) CLOSE_PAREN"
        by (subst (asm) parseParamsLoop.simps, auto simp: Let_def split: if_splits)+
      from True have "Kind (Peek (lex p)) \<noteq> EOF" by (simp add: NextIs_def)
      from skip_cons [OF this] q v c True
      have "lex p = [] @ [Peek (lex p)] @ lex q \<and> Kind (Peek (lex q)) = CLOSE_PAREN
        \<and> (\<forall>t \<in> set []. Kind t \<noteq> DOT_DOT_DOT)
        \<and> (if v then \<exists>d. [Peek (lex p)] = [d] \<and> Kind d = DOT_DOT_DOT
            else [Peek (lex p)] = [])"
        by (simp add: NextIs_def)
      then show ?thesis by blast
    next
      case ndots: False
      with "1.prems" nclose obtain name p1 ty p2 where
        e: "expect p ID = ((name, True), p1)" and t: "parseExprType p1 = (Ok ty, p2)"
        by (subst (asm) parseParamsLoop.simps)
           (auto simp: Let_def split: prod.splits outcome.splits if_splits)
      from expect_cons [OF e] have n: "lex p = name # lex p1" "Kind name = ID" by simp_all
      from parseExprType_consumed [OF t] obtain pre where
        pre: "lex p1 = pre @ lex p2" "\<forall>t \<in> set pre. Kind t \<noteq> DOT_DOT_DOT" by blast
      let ?ps = "params @ [\<lparr>FieldName = name, FieldType = ty\<rparr>]"
      show ?thesis
      proof (cases "NextIs (lex p2) COMMA")
        case True
        with "1.prems" nclose ndots e t have "parseParamsLoop ?ps (skip p2) = (Ok (r, v), q)"
          by (subst (asm) parseParamsLoop.simps) (simp add: Let_def)
        from "1.IH"(1) [OF nclose ndots e [symmetric] refl _ t [symmetric] refl refl True this]
        obtain front dots where
          f: "lex (skip p2) = front @ dots @ lex q" "Kind (Peek (lex q)) = CLOSE_PAREN"
             "\<forall>t \<in> set front. Kind t \<noteq> DOT_DOT_DOT"
             "if v then \<exists>d. dots = [d] \<and> Kind d = DOT_DOT_DOT else dots = []"
          by auto
        from True have c: "Kind (Peek (lex p2)) = COMMA" by (simp add: NextIs_def)
        with skip_cons [of p2] have "lex p2 = Peek (lex p2) # lex (skip p2)" by simp
        with n pre f c have "lex p = (name # pre @ Peek (lex p2) # front) @ dots @ lex q
            \<and> Kind (Peek (lex q)) = CLOSE_PAREN
            \<and> (\<forall>t \<in> set (name # pre @ Peek (lex p2) # front). Kind t \<noteq> DOT_DOT_DOT)
            \<and> (if v then \<exists>d. dots = [d] \<and> Kind d = DOT_DOT_DOT else dots = [])"
          by auto
        then show ?thesis by blast
      next
        case nc: False
        with "1.prems" nclose ndots e t have "parseParamsLoop ?ps p2 = (Ok (r, v), q)"
          by (subst (asm) parseParamsLoop.simps) (simp add: Let_def)
        from "1.IH"(2) [OF nclose ndots e [symmetric] refl _ t [symmetric] refl refl nc this]
        obtain front dots where
          f: "lex p2 = front @ dots @ lex q" "Kind (Peek (lex q)) = CLOSE_PAREN"
             "\<forall>t \<in> set front. Kind t \<noteq> DOT_DOT_DOT"
             "if v then \<exists>d. dots = [d] \<and> Kind d = DOT_DOT_DOT else dots = []"
          by auto
        with n pre have "lex p = (name # pre @ front) @ dots @ lex q
            \<and> Kind (Peek (lex q)) = CLOSE_PAREN
            \<and> (\<forall>t \<in> set (name # pre @ front). Kind t \<noteq> DOT_DOT_DOT)
            \<and> (if v then \<exists>d. dots = [d] \<and> Kind d = DOT_DOT_DOT else dots = [])"
          by auto
        then show ?thesis by blast
      qed
    qed
  qed
qed

lemma parseFunctionParams_consumed:
  assumes "parseFunctionParams p = (Ok fl, q)"
  shows "\<exists>front dots.
           lex p = Open fl # front @ dots @ Close fl # lex q
         \<and> Kind (Open fl) = OPEN_PAREN \<and> Kind (Close fl) = CLOSE_PAREN
         \<and> (\<forall>t \<in> set front. Kind t \<noteq> DOT_DOT_DOT)
         \<and> (if IsVariadic fl then \<exists>d. dots = [d] \<and> Kind d = DOT_DOT_DOT else dots = [])"
proof -
  from assms obtain openParen p1 params v p2 closeParen where
    o: "expect p OPEN_PAREN = ((openParen, True), p1)" and
    l: "parseParamsLoop [] p1 = (Ok (params, v), p2)" and
    c: "expect p2 CLOSE_PAREN = ((closeParen, True), q)" and
    fl: "fl = \<lparr>Open = openParen, Fields = params, IsVariadic = v, Close = closeParen\<rparr>"
    by (auto simp: parseFunctionParams_def split: prod.splits outcome.splits if_splits)
  from parseParamsLoop_consumed [OF l] obtain front dots where
    f: "lex p1 = front @ dots @ lex p2"
       "\<forall>t \<in> set front. Kind t \<noteq> DOT_DOT_DOT"
       "if v then \<exists>d. dots = [d] \<and> Kind d = DOT_DOT_DOT else dots = []"
    by auto
  from expect_cons [OF o] expect_cons [OF c] f fl
  have "lex p = Open fl # front @ dots @ Close fl # lex q
         \<and> Kind (Open fl) = OPEN_PAREN \<and> Kind (Close fl) = CLOSE_PAREN
         \<and> (\<forall>t \<in> set front. Kind t \<noteq> DOT_DOT_DOT)
         \<and> (if IsVariadic fl then \<exists>d. dots = [d] \<and> Kind d = DOT_DOT_DOT else dots = [])"
    by auto
  then show ?thesis by blast
qed

text \<open>
  C7. The ellipsis in a parameter list: \<open>(a int, ..., b int)\<close> fails with the sentinel
  error and the diagnostic "... is only allowed at the end of parameter list" at the
  position of the ellipsis; \<open>(a int, b *int, ...)\<close> gives a variadic field list with the
  two fields in order. Wherever the loop meets an ellipsis, it ends the list as variadic
  when the closing parenthesis follows and fails with that diagnostic when anything else
  does; where a type is expected an ellipsis is no type, so \<open>(a ..., b int)\<close> fails with
  the diagnostic of a missing parameter type. In general, for every parameter list that
  parses, the tokens consumed are the opening parenthesis, tokens none of which is an
  ellipsis, then one ellipsis if the list is variadic and none if it is not, then the
  closing parenthesis.
\<close>

theorem ellipsis_only_last:
  "parseFunctionParams
     (onTokens [tkAt OPEN_PAREN ''('' 1 8, tkAt ID ''a'' 1 9, tkAt INT_TYPE ''int'' 1 11,
                tkAt COMMA '','' 1 14, tkAt DOT_DOT_DOT ''...'' 1 16, tkAt COMMA '','' 1 19,
                tkAt ID ''b'' 1 21, tkAt INT_TYPE ''int'' 1 23, tkAt CLOSE_PAREN '')'' 1 26])
     = (Err COMPILER_ERROR_FOUND,
        \<lparr>lex = [tkAt COMMA '','' 1 19, tkAt ID ''b'' 1 21, tkAt INT_TYPE ''int'' 1 23,
                tkAt CLOSE_PAREN '')'' 1 26],
         collector = [\<lparr>At = \<lparr>Filename = ''main.t'', Line = 1, Column = 16\<rparr>,
                        Message = ''... is only allowed at the end of parameter list'',
                        Args = []\<rparr>],
         moduleScope = None, scopes = []\<rparr>)
   \<and> parseFunctionParams
       (onTokens [tk OPEN_PAREN ''('', tk ID ''a'', tk INT_TYPE ''int'', tk COMMA '','',
                  tk ID ''b'', tk STAR ''*'', tk INT_TYPE ''int'', tk COMMA '','',
                  tk DOT_DOT_DOT ''...'', tk CLOSE_PAREN '')''])
     = (Ok \<lparr>Open = tk OPEN_PAREN ''('',
            Fields = [\<lparr>FieldName = tk ID ''a'', FieldType = BasicType INT_TYPE\<rparr>,
                      \<lparr>FieldName = tk ID ''b'', FieldType = PointerType (BasicType INT_TYPE)\<rparr>],
            IsVariadic = True, Close = tk CLOSE_PAREN '')''\<rparr>,
        onTokens [])
   \<and> parseParamsLoop params (p\<lparr>lex := \<lparr>Kind = DOT_DOT_DOT, Lexeme = l, Pos = pos\<rparr> # rest\<rparr>)
     = (if Kind (Peek rest) = CLOSE_PAREN then (Ok (params, True), p\<lparr>lex := rest\<rparr>)
        else (Err COMPILER_ERROR_FOUND,
              p\<lparr>lex := rest,
                collector := collector p @
                  [\<lparr>At = pos, Message = ''... is only allowed at the end of parameter list'',
                    Args = []\<rparr>]\<rparr>))
   \<and> parseExprType (p\<lparr>lex := \<lparr>Kind = DOT_DOT_DOT, Lexeme = l, Pos = pos\<rparr> # rest\<rparr>)
     = (Err COMPILER_ERROR_FOUND, p\<lparr>lex := \<lparr>Kind = DOT_DOT_DOT, Lexeme = l, Pos = pos\<rparr> # rest\<rparr>)
   \<and> parseFunctionParams
       (onTokens [tkAt OPEN_PAREN ''('' 1 8, tkAt ID ''a'' 1 9, tkAt DOT_DOT_DOT ''...'' 1 11,
                  tkAt COMMA '','' 1 14, tkAt ID ''b'' 1 16, tkAt INT_TYPE ''int'' 1 18,
                  tkAt CLOSE_PAREN '')'' 1 21])
     = (Err COMPILER_ERROR_FOUND,
        \<lparr>lex = [tkAt DOT_DOT_DOT ''...'' 1 11, tkAt COMMA '','' 1 14, tkAt ID ''b'' 1 16,
                tkAt INT_TYPE ''int'' 1 18, tkAt CLOSE_PAREN '')'' 1 21],
         collector = [\<lparr>At = \<lparr>Filename = ''main.t'', Line = 1, Column = 11\<rparr>,
                        Message = ''expected parameter type for '' @ quoted ''%s'' @ '', not %s'',
                        Args = [ArgStr ''a'', ArgKind DOT_DOT_DOT]\<rparr>],
         moduleScope = None, scopes = []\<rparr>)
   \<and> (\<forall>fieldList q.
         parseFunctionParams p = (Ok fieldList, q) \<longrightarrow>
         (\<exists>front dots.
            lex p = Open fieldList # front @ dots @ Close fieldList # lex q
          \<and> Kind (Open fieldList) = OPEN_PAREN \<and> Kind (Close fieldList) = CLOSE_PAREN
          \<and> DOT_DOT_DOT \<notin> Kind ` set front
          \<and> (if IsVariadic fieldList then \<exists>d. dots = [d] \<and> Kind d = DOT_DOT_DOT
              else dots = [])))"
proof -
  have examples: "parseFunctionParams
     (onTokens [tkAt OPEN_PAREN ''('' 1 8, tkAt ID ''a'' 1 9, tkAt INT_TYPE ''int'' 1 11,
                tkAt COMMA '','' 1 14, tkAt DOT_DOT_DOT ''...'' 1 16, tkAt COMMA '','' 1 19,
                tkAt ID ''b'' 1 21, tkAt INT_TYPE ''int'' 1 23, tkAt CLOSE_PAREN '')'' 1 26])
     = (Err COMPILER_ERROR_FOUND,
        \<lparr>lex = [tkAt COMMA '','' 1 19, tkAt ID ''b'' 1 21, tkAt INT_TYPE ''int'' 1 23,
                tkAt CLOSE_PAREN '')'' 1 26],
         collector = [\<lparr>At = \<lparr>Filename = ''main.t'', Line = 1, Column = 16\<rparr>,
                        Message = ''... is only allowed at the end of parameter list'',
                        Args = []\<rparr>],
         moduleScope = None, scopes = []\<rparr>)
   \<and> parseFunctionParams
       (onTokens [tk OPEN_PAREN ''('', tk ID ''a'', tk INT_TYPE ''int'', tk COMMA '','',
                  tk ID ''b'', tk STAR ''*'', tk INT_TYPE ''int'', tk COMMA '','',
                  tk DOT_DOT_DOT ''...'', tk CLOSE_PAREN '')''])
     = (Ok \<lparr>Open = tk OPEN_PAREN ''('',
            Fields = [\<lparr>FieldName = tk ID ''a'', FieldType = BasicType INT_TYPE\<rparr>,
                      \<lparr>FieldName = tk ID ''b'', FieldType = PointerType (BasicType INT_TYPE)\<rparr>],
            IsVariadic = True, Close = tk CLOSE_PAREN '')''\<rparr>,
        onTokens [])
   \<and> parseParamsLoop params (p\<lparr>lex := \<lparr>Kind = DOT_DOT_DOT, Lexeme = l, Pos = pos\<rparr> # rest\<rparr>)
     = (if Kind (Peek rest) = CLOSE_PAREN then (Ok (params, True), p\<lparr>lex := rest\<rparr>)
        else (Err COMPILER_ERROR_FOUND,
              p\<lparr>lex := rest,
                collector := collector p @
                  [\<lparr>At = pos, Message = ''... is only allowed at the end of parameter list'',
                    Args = []\<rparr>]\<rparr>))"
    by (simp add: eval_defs decl_eqs Let_def)
  have types: "parseExprType (p\<lparr>lex := \<lparr>Kind = DOT_DOT_DOT, Lexeme = l, Pos = pos\<rparr> # rest\<rparr>)
     = (Err COMPILER_ERROR_FOUND, p\<lparr>lex := \<lparr>Kind = DOT_DOT_DOT, Lexeme = l, Pos = pos\<rparr> # rest\<rparr>)
   \<and> parseFunctionParams
       (onTokens [tkAt OPEN_PAREN ''('' 1 8, tkAt ID ''a'' 1 9, tkAt DOT_DOT_DOT ''...'' 1 11,
                  tkAt COMMA '','' 1 14, tkAt ID ''b'' 1 16, tkAt INT_TYPE ''int'' 1 18,
                  tkAt CLOSE_PAREN '')'' 1 21])
     = (Err COMPILER_ERROR_FOUND,
        \<lparr>lex = [tkAt DOT_DOT_DOT ''...'' 1 11, tkAt COMMA '','' 1 14, tkAt ID ''b'' 1 16,
                tkAt INT_TYPE ''int'' 1 18, tkAt CLOSE_PAREN '')'' 1 21],
         collector = [\<lparr>At = \<lparr>Filename = ''main.t'', Line = 1, Column = 11\<rparr>,
                        Message = ''expected parameter type for '' @ quoted ''%s'' @ '', not %s'',
                        Args = [ArgStr ''a'', ArgKind DOT_DOT_DOT]\<rparr>],
         moduleScope = None, scopes = []\<rparr>)"
    by (simp add: eval_defs decl_eqs Let_def)
  have general: "\<exists>front dots.
            lex p = Open fieldList # front @ dots @ Close fieldList # lex q
          \<and> Kind (Open fieldList) = OPEN_PAREN \<and> Kind (Close fieldList) = CLOSE_PAREN
          \<and> DOT_DOT_DOT \<notin> Kind ` set front
          \<and> (if IsVariadic fieldList then \<exists>d. dots = [d] \<and> Kind d = DOT_DOT_DOT
              else dots = [])"
    if "parseFunctionParams p = (Ok fieldList, q)" for fieldList q
  proof -
    from parseFunctionParams_consumed [OF that] obtain front dots where
      f: "lex p = Open fieldList # front @ dots @ Close fieldList # lex q"
         "Kind (Open fieldList) = OPEN_PAREN" "Kind (Close fieldList) = CLOSE_PAREN"
         "\<forall>t \<in> set front. Kind t \<noteq> DOT_DOT_DOT"
         "if IsVariadic fieldList then \<exists>d. dots = [d] \<and> Kind d = DOT_DOT_DOT else dots = []"
      by blast
    from f(4) have "DOT_DOT_DOT \<notin> Kind ` set front" by auto
    with f(1,2,3,5) show ?thesis by (intro exI [of _ front] exI [of _ dots]) simp
  qed
  then have "\<forall>fieldList q.
         parseFunctionParams p = (Ok fieldList, q) \<longrightarrow>
         (\<exists>front dots.
            lex p = Open fieldList # front @ dots @ Close fieldList # lex q
          \<and> Kind (Open fieldList) = OPEN_PAREN \<and> Kind (Close fieldList) = CLOSE_PAREN
          \<and> DOT_DOT_DOT \<notin> Kind ` set front
          \<and> (if IsVariadic fieldList then \<exists>d. dots = [d] \<and> Kind d = DOT_DOT_DOT
              else dots = []))"
    by blast
  with examples types show ?thesis by (elim conjE) (intro conjI; assumption)
qed

text \<open>\<open>(a int, b *int, ...) {\<close>: the one ellipsis read stands right before the closing
  parenthesis.\<close>

theorem ellipsis_only_last_witness:
  "\<exists>front dots.
     [tk OPEN_PAREN ''('', tk ID ''a'', tk INT_TYPE ''int'', tk COMMA '','', tk ID ''b'',
      tk STAR ''*'', tk INT_TYPE ''int'', tk COMMA '','', tk DOT_DOT_DOT ''...'',
      tk CLOSE_PAREN '')'', tk OPEN_CURLY ''{'']
       = tk OPEN_PAREN ''('' # front @ dots @ [tk CLOSE_PAREN '')'', tk OPEN_CURLY ''{'']
   \<and> DOT_DOT_DOT \<notin> Kind ` set front
   \<and> (\<exists>d. dots = [d] \<and> Kind d = DOT_DOT_DOT)"
proof -
  let ?p = "onTokens [tk OPEN_PAREN ''('', tk ID ''a'', tk INT_TYPE ''int'', tk COMMA '','',
      tk ID ''b'', tk STAR ''*'', tk INT_TYPE ''int'', tk COMMA '','', tk DOT_DOT_DOT ''...'',
      tk CLOSE_PAREN '')'', tk OPEN_CURLY ''{'']"
  have parse: "parseFunctionParams ?p
     = (Ok \<lparr>Open = tk OPEN_PAREN ''('',
            Fields = [\<lparr>FieldName = tk ID ''a'', FieldType = BasicType INT_TYPE\<rparr>,
                      \<lparr>FieldName = tk ID ''b'', FieldType = PointerType (BasicType INT_TYPE)\<rparr>],
            IsVariadic = True, Close = tk CLOSE_PAREN '')''\<rparr>,
        onTokens [tk OPEN_CURLY ''{''])"
    by (simp add: eval_defs decl_eqs Let_def)
  note g = ellipsis_only_last [where p = ?p, THEN conjunct2, THEN conjunct2, THEN conjunct2,
      THEN conjunct2, THEN conjunct2, rule_format, OF parse]
  from g obtain front dots where
    f: "lex ?p = tk OPEN_PAREN ''('' # front @ dots @ tk CLOSE_PAREN '')''
                   # lex (onTokens [tk OPEN_CURLY ''{''])"
       "DOT_DOT_DOT \<notin> Kind ` set front" "\<exists>d. dots = [d] \<and> Kind d = DOT_DOT_DOT"
    by auto
  from f(1) have "[tk OPEN_PAREN ''('', tk ID ''a'', tk INT_TYPE ''int'', tk COMMA '','',
      tk ID ''b'', tk STAR ''*'', tk INT_TYPE ''int'', tk COMMA '','', tk DOT_DOT_DOT ''...'',
      tk CLOSE_PAREN '')'', tk OPEN_CURLY ''{'']
       = tk OPEN_PAREN ''('' # front @ dots @ [tk CLOSE_PAREN '')'', tk OPEN_CURLY ''{'']"
    by (simp add: onTokens_def)
  with f(2,3) show ?thesis by (intro exI [of _ front] exI [of _ dots]) simp
qed


text \<open>
  C9. \<open>parseReturnType\<close> answers with the void type and leaves the token stream alone
  exactly when the next token opens a block or, for a prototype only, ends the statement.
  Otherwise the answer is that of \<open>parseExprType\<close>: the written type, or the sentinel
  error with a diagnostic where no type can be read (as for \<open>;\<close> outside a prototype). A
  written \<open>void\<close> is read as a type and consumed.
\<close>

theorem return_type_defaults_to_void:
  "parseReturnType isPrototype p =
     (if NextIs (lex p) OPEN_CURLY \<or> (isPrototype \<and> NextIs (lex p) SEMICOLON) then
        (Ok (BasicType VOID_TYPE), p)
      else
        (case parseExprType p of
           (Ok returnType, q) \<Rightarrow> (Ok returnType, q)
         | (Err e, q) \<Rightarrow>
             (Err COMPILER_ERROR_FOUND,
              ReportAndSave q
                \<lparr>At = Pos (Peek (lex q)), Message = ''expected type or {, not %s'',
                 Args = [ArgKind (Kind (Peek (lex q)))]\<rparr>)
         | (Abort a, q) \<Rightarrow> (Abort a, q)))
   \<and> ((parseReturnType isPrototype p = (Ok (BasicType VOID_TYPE), p))
        = (NextIs (lex p) OPEN_CURLY \<or> (isPrototype \<and> NextIs (lex p) SEMICOLON)))
   \<and> fst (parseReturnType False (onTokens [tk SEMICOLON '';''])) = Err COMPILER_ERROR_FOUND
   \<and> parseReturnType True (onTokens [tk SEMICOLON '';''])
       = (Ok (BasicType VOID_TYPE), onTokens [tk SEMICOLON '';''])
   \<and> parseReturnType False (onTokens [tk VOID_TYPE ''void'', tk OPEN_CURLY ''{''])
       = (Ok (BasicType VOID_TYPE), onTokens [tk OPEN_CURLY ''{''])
   \<and> parseReturnType False (onTokens [tk STAR ''*'', tk I32_TYPE ''i32'', tk OPEN_CURLY ''{''])
       = (Ok (PointerType (BasicType I32_TYPE)), onTokens [tk OPEN_CURLY ''{''])"
proof -
  have neq: "parseExprType p \<noteq> (Ok t, p)" for t
    using parseExprType_lex [of p "Ok t" p] by auto
  have a: "(parseReturnType isPrototype p = (Ok (BasicType VOID_TYPE), p))
        = (NextIs (lex p) OPEN_CURLY \<or> (isPrototype \<and> NextIs (lex p) SEMICOLON))"
    using neq [of "BasicType VOID_TYPE"]
    by (auto simp: parseReturnType_def Let_def split: prod.splits outcome.splits)
  have b: "parseReturnType isPrototype p =
     (if NextIs (lex p) OPEN_CURLY \<or> (isPrototype \<and> NextIs (lex p) SEMICOLON) then
        (Ok (BasicType VOID_TYPE), p)
      else
        (case parseExprType p of
           (Ok returnType, q) \<Rightarrow> (Ok returnType, q)
         | (Err e, q) \<Rightarrow>
             (Err COMPILER_ERROR_FOUND,
              ReportAndSave q
                \<lparr>At = Pos (Peek (lex q)), Message = ''expected type or {, not %s'',
                 Args = [ArgKind (Kind (Peek (lex q)))]\<rparr>)
         | (Abort a, q) \<Rightarrow> (Abort a, q)))"
    by (auto simp: parseReturnType_def Let_def split: prod.splits outcome.splits)
  have c: "fst (parseReturnType False (onTokens [tk SEMICOLON '';''])) = Err COMPILER_ERROR_FOUND
   \<and> parseReturnType True (onTokens [tk SEMICOLON '';''])
       = (Ok (BasicType VOID_TYPE), onTokens [tk SEMICOLON '';''])
   \<and> parseReturnType False (onTokens [tk VOID_TYPE ''void'', tk OPEN_CURLY ''{''])
       = (Ok (BasicType VOID_TYPE), onTokens [tk OPEN_CURLY ''{''])
   \<and> parseReturnType False (onTokens [tk STAR ''*'', tk I32_TYPE ''i32'', tk OPEN_CURLY ''{''])
       = (Ok (PointerType (BasicType I32_TYPE)), onTokens [tk OPEN_CURLY ''{''])"
    by (simp add: eval_defs decl_eqs Let_def)
  from a b c show ?thesis by blast
qed

section \<open>Claims about statements\<close>

lemma parseVarLoop_grows:
  "parseVarLoop vs p = (Ok (r, d), q) \<Longrightarrow> length vs < length r"
proof (induction vs p arbitrary: r d q rule: parseVarLoop.induct)
  case (1 variables p)
  from "1.prems" obtain name p1 where e: "expect p ID = ((name, True), p1)"
    by (subst (asm) parseVarLoop.simps) (auto split: prod.splits if_splits)
  let ?v = "\<lparr>Name = name, Type = None, Value = None, Decl = True, NeedsInference = True\<rparr>"
  show ?case
  proof (cases "Kind (Peek (lex p1)) = COLON_EQUAL \<or> Kind (Peek (lex p1)) = EQUAL")
    case True
    with "1.prems" e show ?thesis
      by (subst (asm) parseVarLoop.simps) (auto simp: Let_def)
  next
    case ne: False
    show ?thesis
    proof (cases "Kind (Peek (lex p1)) = COMMA")
      case True
      with "1.prems" e ne have "parseVarLoop (variables @ [?v]) (skip p1) = (Ok (r, d), q)"
        by (subst (asm) parseVarLoop.simps) (auto simp: Let_def)
      from "1.IH"(1) [OF e [symmetric] refl _ refl refl _ True this] ne
      show ?thesis by simp
    next
      case nc: False
      obtain r2 p2 where t: "parseExprType p1 = (r2, p2)" by (cases "parseExprType p1")
      from "1.prems" e ne nc t obtain ty where ty: "r2 = Ok ty"
        by (subst (asm) parseVarLoop.simps) (auto simp: Let_def split: outcome.splits)
      let ?w = "?v\<lparr>Type := Some ty, NeedsInference := False\<rparr>"
      show ?thesis
      proof (cases "Kind (Peek (lex p2)) = COLON_EQUAL \<or> Kind (Peek (lex p2)) = EQUAL")
        case True
        with "1.prems" e ne nc t ty show ?thesis
          by (subst (asm) parseVarLoop.simps) (auto simp: Let_def)
      next
        case ne2: False
        show ?thesis
        proof (cases "Kind (Peek (lex p2)) = COMMA")
          case True
          with "1.prems" e ne nc t ty ne2
          have "parseVarLoop (variables @ [?w]) (skip p2) = (Ok (r, d), q)"
            by (subst (asm) parseVarLoop.simps) (auto simp: Let_def)
          from "1.IH"(2) [OF e [symmetric] refl _ refl refl ne nc _ refl refl refl _ True this]
            t ty ne2
          show ?thesis by simp
        next
          case False
          with "1.prems" e ne nc t ty ne2
          have "parseVarLoop (variables @ [?w]) p2 = (Ok (r, d), q)"
            by (subst (asm) parseVarLoop.simps) (auto simp: Let_def)
          from "1.IH"(3) [OF e [symmetric] refl _ refl refl ne nc _ refl refl refl _ False this]
            t ty ne2
          show ?thesis by simp
        qed
      qed
    qed
  qed
qed

text \<open>The variable a name list and an expression list bind at one position.\<close>

definition binding :: "VarStmt list \<Rightarrow> Expr list \<Rightarrow> bool \<Rightarrow> nat \<Rightarrow> VarStmt" where
  "binding variables exprs isDecl i = (variables ! i)\<lparr>Value := Some (exprs ! i), Decl := isDecl\<rparr>"

definition untyped :: "string \<Rightarrow> Expr \<Rightarrow> bool \<Rightarrow> VarStmt" where
  "untyped name e isDecl =
     \<lparr>Name = tk ID name, Type = None, Value = Some e, Decl = isDecl, NeedsInference = True\<rparr>"

text \<open>
  C8. A variable statement: once the name list (ended by \<open>:=\<close> or \<open>=\<close>) and the
  expression list have been read, the statement is an error unless there are exactly as
  many expressions as names; with equal counts one name gives a VarStmt and several
  names give a MultiVarStmt, and the binding at each position takes the name (and type)
  listed there and the expression listed there. So \<open>a, b := 1, 2\<close> is a MultiVarStmt of
  two bindings and \<open>a, b := 1\<close> fails on the counts 2 and 1. A name list is never empty.
\<close>

theorem variable_statement_counts:
  assumes "parseVarLoop [] p = (Ok (variables, isDecl), p1)"
    and "parseExprList [SEMICOLON, CLOSE_PAREN] [] p1 = (Ok exprs, p2)"
  shows "variables \<noteq> []
    \<and> parseVar p =
        (if length variables \<noteq> length exprs then
           (Err (Errorf ''%d != %d'' [ArgInt (length variables), ArgInt (length exprs)]), p2)
         else if length variables = 1 then
           (Ok (VarStmtNode (binding variables exprs isDecl 0)), p2)
         else
           (Ok (MultiVarStmt isDecl
                  (map (binding variables exprs isDecl) [0..<length variables])), p2))
    \<and> parseVar (onTokens [tk ID ''a'', tk COMMA '','', tk ID ''b'', tk COLON_EQUAL '':='',
                           tk INTEGER_LITERAL ''1'', tk COMMA '','', tk INTEGER_LITERAL ''2'',
                           tk SEMICOLON '';''])
        = (Ok (MultiVarStmt True
                 [untyped ''a'' (int_lit ''1'') True, untyped ''b'' (int_lit ''2'') True]),
           onTokens [tk SEMICOLON '';''])
    \<and> parseVar (onTokens [tk ID ''a'', tk COMMA '','', tk ID ''b'', tk COLON_EQUAL '':='',
                           tk INTEGER_LITERAL ''1'', tk SEMICOLON '';''])
        = (Err (Errorf ''%d != %d'' [ArgInt 2, ArgInt 1]), onTokens [tk SEMICOLON '';''])
    \<and> parseVar (onTokens [tk ID ''a'', tk EQUAL ''='', tk INTEGER_LITERAL ''1'',
                           tk COMMA '','', tk INTEGER_LITERAL ''2'', tk SEMICOLON '';''])
        = (Err (Errorf ''%d != %d'' [ArgInt 1, ArgInt 2]), onTokens [tk SEMICOLON '';''])
    \<and> parseVar (onTokens [tk ID ''a'', tk EQUAL ''='', tk INTEGER_LITERAL ''1'',
                           tk SEMICOLON '';''])
        = (Ok (VarStmtNode (untyped ''a'' (int_lit ''1'') False)), onTokens [tk SEMICOLON '';''])"
proof -
  from parseVarLoop_grows [OF assms(1)] have ne: "variables \<noteq> []" by auto
  have m: "length variables = length exprs \<Longrightarrow>
      map (\<lambda>(v, e). v\<lparr>Value := Some e, Decl := isDecl\<rparr>) (zip variables exprs)
      = map (binding variables exprs isDecl) [0..<length variables]"
    by (rule nth_equalityI) (simp_all add: binding_def)
  have g: "parseVar p =
        (if length variables \<noteq> length exprs then
           (Err (Errorf ''%d != %d'' [ArgInt (length variables), ArgInt (length exprs)]), p2)
         else if length variables = 1 then
           (Ok (VarStmtNode (binding variables exprs isDecl 0)), p2)
         else
           (Ok (MultiVarStmt isDecl
                  (map (binding variables exprs isDecl) [0..<length variables])), p2))"
    using assms m by (auto simp: parseVar_def Let_def)
  have c: "parseVar (onTokens [tk ID ''a'', tk COMMA '','', tk ID ''b'', tk COLON_EQUAL '':='',
                           tk INTEGER_LITERAL ''1'', tk COMMA '','', tk INTEGER_LITERAL ''2'',
                           tk SEMICOLON '';''])
        = (Ok (MultiVarStmt True
                 [untyped ''a'' (int_lit ''1'') True, untyped ''b'' (int_lit ''2'') True]),
           onTokens [tk SEMICOLON '';''])
    \<and> parseVar (onTokens [tk ID ''a'', tk COMMA '','', tk ID ''b'', tk COLON_EQUAL '':='',
                           tk INTEGER_LITERAL ''1'', tk SEMICOLON '';''])
        = (Err (Errorf ''%d != %d'' [ArgInt 2, ArgInt 1]), onTokens [tk SEMICOLON '';''])
    \<and> parseVar (onTokens [tk ID ''a'', tk EQUAL ''='', tk INTEGER_LITERAL ''1'',
                           tk COMMA '','', tk INTEGER_LITERAL ''2'', tk SEMICOLON '';''])
        = (Err (Errorf ''%d != %d'' [ArgInt 1, ArgInt 2]), onTokens [tk SEMICOLON '';''])
    \<and> parseVar (onTokens [tk ID ''a'', tk EQUAL ''='', tk INTEGER_LITERAL ''1'',
                           tk SEMICOLON '';''])
        = (Ok (VarStmtNode (untyped ''a'' (int_lit ''1'') False)), onTokens [tk SEMICOLON '';''])"
    by (simp add: expr_eqs eval_defs decl_eqs untyped_def Let_def)
  from ne g c show ?thesis by blast
qed

theorem variable_statement_counts_witness:
  "parseVar (onTokens [tk ID ''x'', tk I32_TYPE ''i32'', tk COMMA '','', tk ID ''y'',
                       tk COLON_EQUAL '':='', tk INTEGER_LITERAL ''1'', tk COMMA '','',
                       tk ID ''z'', tk CLOSE_PAREN '')''])
   = (Ok (MultiVarStmt True
            [\<lparr>Name = tk ID ''x'', Type = Some (BasicType I32_TYPE), Value = Some (int_lit ''1''),
              Decl = True, NeedsInference = False\<rparr>,
             untyped ''y'' (var ''z'') True]),
      onTokens [tk CLOSE_PAREN '')''])"
proof -
  let ?p = "onTokens [tk ID ''x'', tk I32_TYPE ''i32'', tk COMMA '','', tk ID ''y'',
                       tk COLON_EQUAL '':='', tk INTEGER_LITERAL ''1'', tk COMMA '','',
                       tk ID ''z'', tk CLOSE_PAREN '')'']"
  let ?p1 = "onTokens [tk INTEGER_LITERAL ''1'', tk COMMA '','', tk ID ''z'', tk CLOSE_PAREN '')'']"
  let ?vs = "[\<lparr>Name = tk ID ''x'', Type = Some (BasicType I32_TYPE), Value = None,
              Decl = True, NeedsInference = False\<rparr>,
             \<lparr>Name = tk ID ''y'', Type = None, Value = None, Decl = True, NeedsInference = True\<rparr>]"
  have a: "parseVarLoop [] ?p = (Ok (?vs, True), ?p1)"
    by (simp add: eval_defs decl_eqs Let_def)
  have b: "parseExprList [SEMICOLON, CLOSE_PAREN] [] ?p1
             = (Ok [int_lit ''1'', var ''z''], onTokens [tk CLOSE_PAREN '')''])"
    by (simp add: expr_eqs eval_defs)
  from variable_statement_counts [OF a b] show ?thesis
    by (simp add: binding_def untyped_def upt_rec)
qed

end
